theory Spec2Isabelle
  imports Main "HOL-Library.Word" "HOL-Library.Signed_Division"
begin

section \<open>The Opus frame encoder wrapper (opus\_frame\_encoder.c)\<close>

text \<open>
  The wrapper is six C functions around an \<open>opus_encoder_context\<close> struct. Its
  collaborators are outside the repository: libc's \<open>malloc\<close>/\<open>free\<close> and the Opus
  library (\<open>opus_encoder_create\<close>, \<open>opus_encode\<close>, \<open>opus_encoder_ctl\<close>,
  \<open>opus_encoder_destroy\<close>). They are parameters of the model: the library is a record
  of functions over an engine state of any type \<open>'e\<close>, and the answer of \<open>malloc\<close> is an
  argument of the one function that calls it.
\<close>

subsection \<open>Machine types\<close>

text \<open>
  The file is compiled with Emscripten (\<open>emscripten.h\<close>, \<open>EMSCRIPTEN_KEEPALIVE\<close>) for
  wasm32: \<open>int\<close> is 32 bits and two's complement, \<open>size_t\<close> is 32 bits and unsigned.
  Pointers are addresses, \<open>NULL\<close> is address 0.
\<close>

type_synonym c_int = "32 word"
type_synonym size_t = "32 word"
type_synonym byte = "8 word"
type_synonym addr = nat
type_synonym memory = "addr \<Rightarrow> byte"

definition NULL :: addr where
  "NULL = 0"

text \<open>\<open>sizeof(opus_int16)\<close>: a value of type \<open>size_t\<close>.\<close>

definition sizeof_opus_int16 :: size_t where
  "sizeof_opus_int16 = 2"

text \<open>
  The usual arithmetic conversions between \<open>int\<close> and \<open>size_t\<close>: to \<open>size_t\<close> the
  value is taken modulo \<open>2 ^ 32\<close> (the bits stay), back to \<open>int\<close> the bits are read as
  two's complement.
\<close>

definition int_to_size_t :: "c_int \<Rightarrow> size_t" where
  "int_to_size_t x = scast x"

definition size_t_to_int :: "size_t \<Rightarrow> c_int" where
  "size_t_to_int x = ucast x"

text \<open>
  C's \<open>/\<close> on two \<open>int\<close>s truncates towards zero. The only use is \<open>sample_rate / 50\<close>,
  where the divisor is neither 0 nor -1.
\<close>

definition c_int_div :: "c_int \<Rightarrow> c_int \<Rightarrow> c_int" where
  "c_int_div a b = word_of_int (sint a sdiv sint b)"

subsection \<open>The context struct\<close>

record opus_encoder_context =
  encoder :: addr
  sample_rate :: c_int
  channels :: c_int
  frame_size :: c_int

subsection \<open>The Opus library and the world\<close>

text \<open>
  \<open>OPUS_SET_BITRATE(x)\<close> and \<open>OPUS_SET_COMPLEXITY(x)\<close> are macros of the library's
  headers that expand to a request number and the value; the request is kept symbolic.
\<close>

datatype ctl_request = OPUS_SET_BITRATE c_int | OPUS_SET_COMPLEXITY c_int

text \<open>
  The library as the wrapper uses it. \<open>opus_encoder_create\<close> returns the encoder pointer
  and the status it stores through \<open>&error\<close>; \<open>opus_encode\<close> reads and writes the byte
  memory it is given pointers into; \<open>OPUS_OK\<close> is the library's success status.
\<close>

record 'e codec_engine =
  OPUS_OK :: c_int
  opus_encoder_create :: "c_int \<Rightarrow> c_int \<Rightarrow> c_int \<Rightarrow> 'e \<Rightarrow> (addr \<times> c_int) \<times> 'e"
  opus_encode :: "addr \<Rightarrow> addr \<Rightarrow> c_int \<Rightarrow> addr \<Rightarrow> c_int \<Rightarrow> memory \<times> 'e \<Rightarrow> c_int \<times> memory \<times> 'e"
  opus_encoder_ctl :: "addr \<Rightarrow> ctl_request \<Rightarrow> 'e \<Rightarrow> c_int \<times> 'e"
  opus_encoder_destroy :: "addr \<Rightarrow> 'e \<Rightarrow> 'e"

text \<open>Every call that leaves the wrapper, in the order made.\<close>

datatype ext_call =
    Malloc addr
  | Free addr
  | EngineCreate c_int c_int c_int
  | EngineEncode addr addr c_int addr c_int
  | EngineCtl addr ctl_request
  | EngineDestroy addr

text \<open>
  The world: the live \<open>malloc\<close> blocks that hold contexts, the byte memory of the
  caller's buffers, the library's own state, and the log of outside calls.
\<close>

record 'e world =
  ctx_heap :: "addr \<rightharpoonup> opus_encoder_context"
  buffers :: memory
  engine_state :: 'e
  call_log :: "ext_call list"

text \<open>
  What C leaves undefined and the wrapper does not guard: reading through a non-null
  pointer that is not a live context, and dividing by a zero \<open>channels\<close> field.
\<close>

datatype fault = InvalidPointer | DivisionByZero

subsection \<open>The four operations and the two tuning controls\<close>

text \<open>
  \<open>opus_frame_encoder_create\<close>, lines 14-35. \<open>ctx\<close> is what \<open>malloc\<close> returned and
  \<open>uninit\<close> the indeterminate content of the new block.
\<close>

definition opus_frame_encoder_create ::
  "'e codec_engine \<Rightarrow> addr \<Rightarrow> opus_encoder_context \<Rightarrow> c_int \<Rightarrow> c_int \<Rightarrow> c_int \<Rightarrow> 'e world
     \<Rightarrow> addr \<times> 'e world" where
  "opus_frame_encoder_create E ctx uninit rate nch application w =
     (let w0 = w\<lparr>call_log := call_log w @ [Malloc ctx]\<rparr> in
      if ctx = NULL then (NULL, w0)
      else
        let ((enc, error), e') = opus_encoder_create E rate nch application (engine_state w0);
            c1 = uninit\<lparr>encoder := enc\<rparr>;
            w1 = w0\<lparr>ctx_heap := (ctx_heap w0)(ctx \<mapsto> c1), engine_state := e',
                    call_log := call_log w0 @ [EngineCreate rate nch application]\<rparr>
        in if error \<noteq> OPUS_OK E \<or> enc = NULL
           then (NULL, w1\<lparr>ctx_heap := (ctx_heap w1)(ctx := None),
                           call_log := call_log w1 @ [Free ctx]\<rparr>)
           else (ctx, w1\<lparr>ctx_heap := (ctx_heap w1)(ctx \<mapsto>
                           c1\<lparr>sample_rate := rate, channels := nch,
                              frame_size := c_int_div rate 50\<rparr>)\<rparr>))"

text \<open>\<open>opus_frame_encoder_get_frame_size\<close>, lines 38-40.\<close>

definition opus_frame_encoder_get_frame_size :: "addr \<Rightarrow> 'e world \<Rightarrow> fault + c_int" where
  "opus_frame_encoder_get_frame_size ctx w =
     (if ctx \<noteq> NULL
      then (case ctx_heap w ctx of None \<Rightarrow> Inl InvalidPointer | Some c \<Rightarrow> Inr (frame_size c))
      else Inr 0)"

text \<open>
  Line 55: \<open>pcm_length / sizeof(opus_int16) / ctx->channels\<close>, stored in an \<open>int\<close>. The
  first operand pair is \<open>int\<close> and \<open>size_t\<close>, so both divisions are unsigned.
\<close>

definition num_samples :: "c_int \<Rightarrow> c_int \<Rightarrow> c_int" where
  "num_samples pcm_length nch =
     size_t_to_int ((int_to_size_t pcm_length div sizeof_opus_int16) div int_to_size_t nch)"

text \<open>\<open>opus_frame_encode\<close>, lines 43-67.\<close>

definition opus_frame_encode ::
  "'e codec_engine \<Rightarrow> addr \<Rightarrow> addr \<Rightarrow> c_int \<Rightarrow> addr \<Rightarrow> c_int \<Rightarrow> 'e world
     \<Rightarrow> fault + (c_int \<times> 'e world)" where
  "opus_frame_encode E ctx pcm_data pcm_length output_buffer output_buffer_size w =
     (if ctx = NULL then Inr (- 1, w)
      else case ctx_heap w ctx of
        None \<Rightarrow> Inl InvalidPointer
      | Some c \<Rightarrow>
          if encoder c = NULL \<or> pcm_data = NULL \<or> output_buffer = NULL then Inr (- 1, w)
          else if channels c = 0 then Inl DivisionByZero
          else
            let n = num_samples pcm_length (channels c);
                (encoded_bytes, m', e') =
                  opus_encode E (encoder c) pcm_data n output_buffer output_buffer_size
                    (buffers w, engine_state w)
            in Inr (encoded_bytes,
                    w\<lparr>buffers := m', engine_state := e',
                      call_log := call_log w @
                        [EngineEncode (encoder c) pcm_data n output_buffer output_buffer_size]\<rparr>))"

text \<open>\<open>opus_frame_encoder_destroy\<close>, lines 70-77.\<close>

definition opus_frame_encoder_destroy :: "'e codec_engine \<Rightarrow> addr \<Rightarrow> 'e world \<Rightarrow> fault + 'e world" where
  "opus_frame_encoder_destroy E ctx w =
     (if ctx \<noteq> NULL
      then (case ctx_heap w ctx of
              None \<Rightarrow> Inl InvalidPointer
            | Some c \<Rightarrow>
                let w1 = (if encoder c \<noteq> NULL
                          then w\<lparr>engine_state := opus_encoder_destroy E (encoder c) (engine_state w),
                                 call_log := call_log w @ [EngineDestroy (encoder c)]\<rparr>
                          else w)
                in Inr (w1\<lparr>ctx_heap := (ctx_heap w1)(ctx := None),
                           call_log := call_log w1 @ [Free ctx]\<rparr>))
      else Inr w)"

text \<open>\<open>opus_frame_encoder_set_bitrate\<close> and \<open>opus_frame_encoder_set_complexity\<close>, lines 80-93.\<close>

definition encoder_ctl :: "'e codec_engine \<Rightarrow> addr \<Rightarrow> ctl_request \<Rightarrow> 'e world \<Rightarrow> c_int \<times> 'e world" where
  "encoder_ctl E enc req w =
     (let (status, e') = opus_encoder_ctl E enc req (engine_state w)
      in (status, w\<lparr>engine_state := e', call_log := call_log w @ [EngineCtl enc req]\<rparr>))"

definition opus_frame_encoder_set_bitrate ::
  "'e codec_engine \<Rightarrow> addr \<Rightarrow> c_int \<Rightarrow> 'e world \<Rightarrow> fault + (c_int \<times> 'e world)" where
  "opus_frame_encoder_set_bitrate E ctx bitrate w =
     (if ctx = NULL then Inr (- 1, w)
      else case ctx_heap w ctx of
        None \<Rightarrow> Inl InvalidPointer
      | Some c \<Rightarrow>
          if encoder c = NULL then Inr (- 1, w)
          else Inr (encoder_ctl E (encoder c) (OPUS_SET_BITRATE bitrate) w))"

definition opus_frame_encoder_set_complexity ::
  "'e codec_engine \<Rightarrow> addr \<Rightarrow> c_int \<Rightarrow> 'e world \<Rightarrow> fault + (c_int \<times> 'e world)" where
  "opus_frame_encoder_set_complexity E ctx complexity w =
     (if ctx = NULL then Inr (- 1, w)
      else case ctx_heap w ctx of
        None \<Rightarrow> Inl InvalidPointer
      | Some c \<Rightarrow>
          if encoder c = NULL then Inr (- 1, w)
          else Inr (encoder_ctl E (encoder c) (OPUS_SET_COMPLEXITY complexity) w))"

subsection \<open>The interface as a transition system\<close>

text \<open>
  A caller's view: one call of the interface, with what it returns. \<open>Create\<close> carries
  the answer of \<open>malloc\<close> for that call.
\<close>

datatype api_call =
    Create addr opus_encoder_context c_int c_int c_int
  | GetFrameSize addr
  | Encode addr addr c_int addr c_int
  | Destroy addr
  | SetBitrate addr c_int
  | SetComplexity addr c_int

datatype api_result = Handle addr | Status c_int | Done

fun api_step :: "'e codec_engine \<Rightarrow> api_call \<Rightarrow> 'e world \<Rightarrow> fault + (api_result \<times> 'e world)" where
  "api_step E (Create ctx uninit rate nch application) w =
     (let (h, w') = opus_frame_encoder_create E ctx uninit rate nch application w
      in Inr (Handle h, w'))"
| "api_step E (GetFrameSize ctx) w =
     (case opus_frame_encoder_get_frame_size ctx w of
        Inl f \<Rightarrow> Inl f | Inr v \<Rightarrow> Inr (Status v, w))"
| "api_step E (Encode ctx pcm_data pcm_length output_buffer output_buffer_size) w =
     (case opus_frame_encode E ctx pcm_data pcm_length output_buffer output_buffer_size w of
        Inl f \<Rightarrow> Inl f | Inr (r, w') \<Rightarrow> Inr (Status r, w'))"
| "api_step E (Destroy ctx) w =
     (case opus_frame_encoder_destroy E ctx w of
        Inl f \<Rightarrow> Inl f | Inr w' \<Rightarrow> Inr (Done, w'))"
| "api_step E (SetBitrate ctx bitrate) w =
     (case opus_frame_encoder_set_bitrate E ctx bitrate w of
        Inl f \<Rightarrow> Inl f | Inr (r, w') \<Rightarrow> Inr (Status r, w'))"
| "api_step E (SetComplexity ctx complexity) w =
     (case opus_frame_encoder_set_complexity E ctx complexity w of
        Inl f \<Rightarrow> Inl f | Inr (r, w') \<Rightarrow> Inr (Status r, w'))"

text \<open>
  The handles a caller holds: those a successful \<open>Create\<close> returned and no \<open>Destroy\<close>
  has taken, each with the sample rate and channel count it was constructed with.
\<close>

type_synonym handles = "(addr \<times> c_int \<times> c_int) list"

fun track :: "api_call \<Rightarrow> api_result \<Rightarrow> handles \<Rightarrow> handles" where
  "track (Create ctx uninit rate nch application) (Handle h) hs =
     (if h = NULL then hs else (h, rate, nch) # hs)"
| "track (Destroy ctx) r hs = filter (\<lambda>(h, rate, nch). h \<noteq> ctx) hs"
| "track call r hs = hs"

text \<open>
  A context is fully valid for its construction arguments when the encoder pointer is
  set and the three cached fields are the ones line 29-32 store.
\<close>

definition ctx_valid :: "opus_encoder_context \<Rightarrow> c_int \<Rightarrow> c_int \<Rightarrow> bool" where
  "ctx_valid c rate nch \<longleftrightarrow>
     encoder c \<noteq> NULL \<and> sample_rate c = rate \<and> channels c = nch \<and>
     frame_size c = c_int_div rate 50"

definition handles_valid :: "handles \<Rightarrow> 'e world \<Rightarrow> bool" where
  "handles_valid hs w \<longleftrightarrow>
     list_all (\<lambda>(h, rate, nch). h \<noteq> NULL \<and>
       (case ctx_heap w h of None \<Rightarrow> False | Some c \<Rightarrow> ctx_valid c rate nch)) hs"

text \<open>
  The contract of \<open>malloc\<close>: it returns \<open>NULL\<close> or a block that is not live already.
\<close>

fun malloc_fresh :: "api_call \<Rightarrow> 'e world \<Rightarrow> bool" where
  "malloc_fresh (Create ctx uninit rate nch application) w \<longleftrightarrow>
     ctx = NULL \<or> ctx_heap w ctx = None"
| "malloc_fresh call w \<longleftrightarrow> True"

text \<open>
  The states a caller can reach: no handle held at the start, then any calls that
  return (a call that faults has left defined behaviour).
\<close>

inductive reachable :: "'e codec_engine \<Rightarrow> handles \<Rightarrow> 'e world \<Rightarrow> bool" for E :: "'e codec_engine" where
  start: "reachable E [] w"
| call: "reachable E hs w \<Longrightarrow> malloc_fresh c w \<Longrightarrow> api_step E c w = Inr (r, w')
           \<Longrightarrow> reachable E (track c r hs) w'"

subsection \<open>An encoding session on one handle\<close>

text \<open>
  What a caller does with a handle between construction and destruction: tuning calls
  and frame encodes, in any order. For a frame the caller first copies the PCM bytes
  into its buffer at \<open>pcm_data\<close> and then calls \<open>opus_frame_encode\<close> with their number as
  \<open>pcm_length\<close>. The compressed frame of an encode that returned \<open>r\<close> is the first \<open>r\<close>
  bytes of the output buffer (none when \<open>r\<close> is negative).
\<close>

fun write_bytes :: "addr \<Rightarrow> byte list \<Rightarrow> memory \<Rightarrow> memory" where
  "write_bytes a [] m = m"
| "write_bytes a (b # bs) m = write_bytes (Suc a) bs (m(a := b))"

datatype handle_call =
    TuneBitrate c_int
  | TuneComplexity c_int
  | EncodeFrame addr "byte list" addr c_int

fun handle_step :: "'e codec_engine \<Rightarrow> addr \<Rightarrow> handle_call \<Rightarrow> 'e world \<Rightarrow> fault + (c_int \<times> 'e world)" where
  "handle_step E h (TuneBitrate bitrate) w = opus_frame_encoder_set_bitrate E h bitrate w"
| "handle_step E h (TuneComplexity complexity) w = opus_frame_encoder_set_complexity E h complexity w"
| "handle_step E h (EncodeFrame pcm_data frame output_buffer output_buffer_size) w =
     opus_frame_encode E h pcm_data (of_nat (length frame)) output_buffer output_buffer_size
       (w\<lparr>buffers := write_bytes pcm_data frame (buffers w)\<rparr>)"

definition encoded_frame :: "addr \<Rightarrow> c_int \<Rightarrow> memory \<Rightarrow> byte list" where
  "encoded_frame output_buffer r m = map m [output_buffer ..< output_buffer + nat (sint r)]"

fun observed :: "handle_call \<Rightarrow> c_int \<Rightarrow> memory \<Rightarrow> byte list" where
  "observed (EncodeFrame pcm_data frame output_buffer output_buffer_size) r m =
     encoded_frame output_buffer r m"
| "observed call r m = []"

fun run_calls ::
  "'e codec_engine \<Rightarrow> addr \<Rightarrow> handle_call list \<Rightarrow> 'e world \<Rightarrow> fault + (c_int \<times> byte list) list" where
  "run_calls E h [] w = Inr []"
| "run_calls E h (c # cs) w =
     (case handle_step E h c w of
        Inl f \<Rightarrow> Inl f
      | Inr (r, w') \<Rightarrow>
          (case run_calls E h cs w' of
             Inl f \<Rightarrow> Inl f
           | Inr outs \<Rightarrow> Inr ((r, observed c r (buffers w')) # outs)))"

subsection \<open>The library's contract on encoder instances\<close>

text \<open>
  What the Opus library documents and the wrapper relies on, stated for any engine:
  an encoder instance has a state of its own, \<open>inst e enc\<close>, with a channel count
  \<open>chans\<close>, and nothing else of the library's state or of memory decides what a call on
  the instance does. Two successful constructions with the same arguments give
  instances in the same state, whose channel count is the one asked for.
\<close>

definition create_contract :: "'e codec_engine \<Rightarrow> ('e \<Rightarrow> addr \<Rightarrow> 'v) \<Rightarrow> ('v \<Rightarrow> c_int) \<Rightarrow> bool" where
  "create_contract E inst chans \<longleftrightarrow>
     (\<forall>rate nch application e1 e2 enc1 enc2 e1' e2'.
        opus_encoder_create E rate nch application e1 = ((enc1, OPUS_OK E), e1') \<and> enc1 \<noteq> NULL \<and>
        opus_encoder_create E rate nch application e2 = ((enc2, OPUS_OK E), e2') \<and> enc2 \<noteq> NULL \<longrightarrow>
        inst e1' enc1 = inst e2' enc2 \<and> chans (inst e1' enc1) = nch)"

text \<open>
  \<open>opus_encode\<close> on two instances in the same state, with the same frame size and output
  capacity and the same \<open>2 * frame_size * channels\<close> PCM bytes, returns the same value,
  writes the same compressed bytes and leaves the instances in the same state, with the
  channel count they had.
\<close>

definition encode_contract :: "'e codec_engine \<Rightarrow> ('e \<Rightarrow> addr \<Rightarrow> 'v) \<Rightarrow> ('v \<Rightarrow> c_int) \<Rightarrow> bool" where
  "encode_contract E inst chans \<longleftrightarrow>
     (\<forall>enc1 enc2 e1 e2 m1 m2 pcm n out cap r1 m1' e1' r2 m2' e2'.
        enc1 \<noteq> NULL \<and> enc2 \<noteq> NULL \<and> inst e1 enc1 = inst e2 enc2 \<and>
        (\<forall>i < 2 * unat n * unat (chans (inst e1 enc1)). m1 (pcm + i) = m2 (pcm + i)) \<and>
        opus_encode E enc1 pcm n out cap (m1, e1) = (r1, m1', e1') \<and>
        opus_encode E enc2 pcm n out cap (m2, e2) = (r2, m2', e2') \<longrightarrow>
        r1 = r2 \<and> inst e1' enc1 = inst e2' enc2 \<and>
        chans (inst e1' enc1) = chans (inst e1 enc1) \<and>
        (\<forall>i < nat (sint r1). m1' (out + i) = m2' (out + i)))"

text \<open>
  \<open>opus_encoder_ctl\<close> on two instances in the same state, with the same request, returns
  the same status and leaves the instances in the same state, with the channel count
  they had.
\<close>

definition ctl_contract :: "'e codec_engine \<Rightarrow> ('e \<Rightarrow> addr \<Rightarrow> 'v) \<Rightarrow> ('v \<Rightarrow> c_int) \<Rightarrow> bool" where
  "ctl_contract E inst chans \<longleftrightarrow>
     (\<forall>enc1 enc2 e1 e2 req s1 e1' s2 e2'.
        enc1 \<noteq> NULL \<and> enc2 \<noteq> NULL \<and> inst e1 enc1 = inst e2 enc2 \<and>
        opus_encoder_ctl E enc1 req e1 = (s1, e1') \<and>
        opus_encoder_ctl E enc2 req e2 = (s2, e2') \<longrightarrow>
        s1 = s2 \<and> inst e1' enc1 = inst e2' enc2 \<and>
        chans (inst e1' enc1) = chans (inst e1 enc1))"

definition engine_isolated :: "'e codec_engine \<Rightarrow> ('e \<Rightarrow> addr \<Rightarrow> 'v) \<Rightarrow> ('v \<Rightarrow> c_int) \<Rightarrow> bool" where
  "engine_isolated E inst chans \<longleftrightarrow>
     create_contract E inst chans \<and> encode_contract E inst chans \<and> ctl_contract E inst chans"

text \<open>
  Two handles, each in its own world, are in step when both are live contexts with an
  encoder and the same channel count, and their encoder instances are in the same state.
\<close>

definition in_step ::
  "('e \<Rightarrow> addr \<Rightarrow> 'v) \<Rightarrow> ('v \<Rightarrow> c_int) \<Rightarrow> c_int \<Rightarrow> addr \<Rightarrow> 'e world \<Rightarrow> addr \<Rightarrow> 'e world \<Rightarrow> bool" where
  "in_step inst chans nch h1 w1 h2 w2 \<longleftrightarrow>
     h1 \<noteq> NULL \<and> h2 \<noteq> NULL \<and>
     (\<exists>c1 c2. ctx_heap w1 h1 = Some c1 \<and> ctx_heap w2 h2 = Some c2 \<and>
        encoder c1 \<noteq> NULL \<and> encoder c2 \<noteq> NULL \<and> channels c1 = nch \<and> channels c2 = nch \<and>
        inst (engine_state w1) (encoder c1) = inst (engine_state w2) (encoder c2) \<and>
        chans (inst (engine_state w1) (encoder c1)) = nch)"

subsection \<open>A small engine and worlds for concrete runs\<close>

text \<open>
  A stand-in for the library, used only to run the wrapper on concrete inputs: it
  accepts the five Opus sample rates with one or two channels, counts its live
  instances, and encodes a frame of at least one sample into one byte.
\<close>

definition demo_engine :: "nat codec_engine" where
  "demo_engine =
     \<lparr>OPUS_OK = 0,
      opus_encoder_create = (\<lambda>rate nch application live.
        if rate \<in> {8000, 12000, 16000, 24000, 48000} \<and> nch \<in> {1, 2}
        then ((4096, 0), Suc live) else ((NULL, - 1), live)),
      opus_encode = (\<lambda>enc pcm n out cap (m, live).
        if 0 <s n \<and> 0 <s cap then (1, m(out := m pcm), live) else (- 1, m, live)),
      opus_encoder_ctl = (\<lambda>enc req live.
        (case req of
           OPUS_SET_BITRATE v \<Rightarrow> if 0 <s v then (0, live) else (- 1, live)
         | OPUS_SET_COMPLEXITY v \<Rightarrow> if 0 \<le>s v \<and> v \<le>s 10 then (0, live) else (- 1, live))),
      opus_encoder_destroy = (\<lambda>enc live. live - 1)\<rparr>"

definition empty_world :: "nat world" where
  "empty_world = \<lparr>ctx_heap = Map.empty, buffers = (\<lambda>a. 0), engine_state = 0, call_log = []\<rparr>"

definition demo_uninit :: opus_encoder_context where
  "demo_uninit = \<lparr>encoder = 7, sample_rate = - 1, channels = 0, frame_size = 12345\<rparr>"

definition demo_ctx :: opus_encoder_context where
  "demo_ctx = \<lparr>encoder = 4096, sample_rate = 48000, channels = 1, frame_size = 960\<rparr>"

text \<open>The world after \<open>opus_frame_encoder_create(48000, 1, 2049)\<close> with \<open>malloc\<close> returning 16.\<close>

definition demo_world :: "nat world" where
  "demo_world =
     \<lparr>ctx_heap = [16 \<mapsto> demo_ctx], buffers = (\<lambda>a. 0), engine_state = 1,
      call_log = [Malloc 16, EngineCreate 48000 1 2049]\<rparr>"

text \<open>
  A second stand-in, with a state per instance: the channel count and a history byte
  that every encoded frame and every accepted complexity setting moves on. The byte
  encoded for a frame is its first PCM byte plus the history of the instance.
\<close>

type_synonym history_state = "addr \<times> (addr \<rightharpoonup> c_int \<times> byte)"

definition history_engine :: "history_state codec_engine" where
  "history_engine =
     \<lparr>OPUS_OK = 0,
      opus_encoder_create = (\<lambda>rate nch application (next, insts).
        if rate \<in> {8000, 12000, 16000, 24000, 48000} \<and> nch \<in> {1, 2}
        then ((next, 0), (next + 64, insts(next \<mapsto> (nch, 0))))
        else ((NULL, - 1), (next, insts))),
      opus_encode = (\<lambda>enc pcm n out cap (m, (next, insts)).
        (case insts enc of
           None \<Rightarrow> (- 1, m, (next, insts))
         | Some (nch, k) \<Rightarrow>
             if 0 <s n \<and> 0 <s cap \<and> nch \<noteq> 0
             then (1, m(out := m pcm + k), (next, insts(enc \<mapsto> (nch, k + 1))))
             else (- 1, m, (next, insts)))),
      opus_encoder_ctl = (\<lambda>enc req (next, insts).
        (case insts enc of
           None \<Rightarrow> (- 1, (next, insts))
         | Some (nch, k) \<Rightarrow>
             (case req of
                OPUS_SET_BITRATE v \<Rightarrow> (if 0 <s v then 0 else - 1, (next, insts))
              | OPUS_SET_COMPLEXITY v \<Rightarrow>
                  if 0 \<le>s v \<and> v \<le>s 10 then (0, (next, insts(enc \<mapsto> (nch, k + ucast v))))
                  else (- 1, (next, insts))))),
      opus_encoder_destroy = (\<lambda>enc (next, insts). (next, insts(enc := None)))\<rparr>"

definition history_inst :: "history_state \<Rightarrow> addr \<Rightarrow> (c_int \<times> byte) option" where
  "history_inst e enc = snd e enc"

definition history_chans :: "(c_int \<times> byte) option \<Rightarrow> c_int" where
  "history_chans v = (case v of None \<Rightarrow> 0 | Some (nch, k) \<Rightarrow> nch)"

text \<open>
  A process at its start, and a later world of it: a first handle is live, its instance
  has moved on, and the buffers hold what earlier calls left.
\<close>

definition history_start :: "history_state world" where
  "history_start =
     \<lparr>ctx_heap = Map.empty, buffers = (\<lambda>a. 0), engine_state = (4096, Map.empty),
      call_log = []\<rparr>"

definition history_later :: "history_state world" where
  "history_later =
     \<lparr>ctx_heap = [16 \<mapsto> demo_ctx], buffers = (\<lambda>a. 0)(32 := 9, 33 := 4, 34 := 2, 35 := 3, 48 := 15),
      engine_state = (4160, [4096 \<mapsto> (1, 7)]),
      call_log = [Malloc 16, EngineCreate 48000 1 2049]\<rparr>"

section \<open>Arithmetic of the two divisions\<close>

text \<open>
  The sample count of line 55 is an unsigned quotient; on a non-negative length and a
  positive channel count it is the truncating quotient of C's signed division.
\<close>

lemma num_samples_uint:
  "uint (num_samples pcm_length nch) = uint pcm_length div 2 div uint nch"
  by (simp add: num_samples_def int_to_size_t_def size_t_to_int_def sizeof_opus_int16_def uint_div)

lemma sint_eq_uint_small:
  fixes x :: c_int
  assumes "uint x < 2 ^ 31"
  shows "sint x = uint x"
proof -
  have "sint x = signed_take_bit 31 (uint x)"
    by (simp add: sint_uint)
  also have "\<dots> = uint x"
  proof (rule signed_take_bit_int_eq_self)
    show "- (2 ^ 31) \<le> uint x"
      by (rule order_trans [OF _ uint_ge_0]) simp
    show "uint x < 2 ^ 31"
      by (fact assms)
  qed
  finally show ?thesis .
qed

lemma uint_eq_sint_nonneg:
  fixes x :: c_int
  assumes "0 \<le> sint x"
  shows "uint x = sint x" and "uint x < 2 ^ 31"
proof -
  have lt: "sint x < 2 ^ 31"
    using sint_lt [of x] by simp
  have "uint x = take_bit 32 (sint x)"
    by (simp add: uint_sint)
  also have "\<dots> = sint x"
    using assms lt by (simp add: take_bit_int_eq_self)
  finally show "uint x = sint x" .
  with lt show "uint x < 2 ^ 31" by simp
qed

lemma num_samples_uint_bound:
  "uint (num_samples pcm_length nch) < 2 ^ 31"
proof -
  have "uint pcm_length < 2 ^ 32"
    using uint_bounded [of pcm_length] by simp
  then have a: "uint pcm_length div 2 < 2 ^ 31" by simp
  have b: "0 \<le> uint pcm_length div 2" by simp
  have "uint pcm_length div 2 div uint nch \<le> uint pcm_length div 2"
  proof (cases "uint nch = 0")
    case True
    then show ?thesis using b by simp
  next
    case False
    then have "1 \<le> uint nch"
      using uint_ge_0 [of nch] by linarith
    then have "uint pcm_length div 2 div uint nch \<le> uint pcm_length div 2 div 1"
      using b by (intro zdiv_mono2) simp_all
    then show ?thesis by simp
  qed
  with a show ?thesis by (simp add: num_samples_uint)
qed

lemma num_samples_nonneg: "0 \<le>s num_samples pcm_length nch"
  using num_samples_uint_bound [of pcm_length nch]
  by (simp add: word_sle_eq sint_eq_uint_small)

lemma sint_num_samples:
  assumes "0 \<le>s pcm_length" "0 <s nch"
  shows "sint (num_samples pcm_length nch) = sint pcm_length div 2 div sint nch"
proof -
  have p: "uint pcm_length = sint pcm_length"
    using assms(1) by (simp add: word_sle_eq uint_eq_sint_nonneg)
  have c: "uint nch = sint nch"
    using assms(2) by (simp add: word_sless_alt uint_eq_sint_nonneg)
  show ?thesis
    using num_samples_uint_bound [of pcm_length nch]
    by (simp add: sint_eq_uint_small num_samples_uint p c)
qed

lemma sdiv_int_nonneg:
  fixes k l :: int
  assumes "0 \<le> k" "0 < l"
  shows "k sdiv l = k div l"
  using assms by (cases "k = 0") (simp_all add: signed_divide_int_def)

lemma sint_c_int_div_2:
  assumes "0 \<le>s pcm_length"
  shows "sint (c_int_div pcm_length 2) = sint pcm_length div 2"
proof -
  have nn: "0 \<le> sint pcm_length"
    using assms by (simp add: word_sle_eq)
  have lt: "sint pcm_length < 2 ^ 31"
    using sint_lt [of pcm_length] by simp
  have "sint (c_int_div pcm_length 2) = signed_take_bit 31 (sint pcm_length div 2)"
    using nn by (simp add: c_int_div_def sdiv_int_nonneg sint_sbintrunc')
  also have "\<dots> = sint pcm_length div 2"
  proof (rule signed_take_bit_int_eq_self)
    show "- (2 ^ 31) \<le> sint pcm_length div 2"
      using nn by simp
    show "sint pcm_length div 2 < 2 ^ 31"
      using nn lt by simp
  qed
  finally show ?thesis .
qed

lemma num_samples_trunc:
  assumes "0 \<le>s pcm_length" "0 <s nch"
  shows "num_samples pcm_length nch = c_int_div (c_int_div pcm_length 2) nch"
proof -
  have nn: "0 \<le> sint pcm_length div 2"
    using assms(1) by (simp add: word_sle_eq)
  have c: "0 < sint nch"
    using assms(2) by (simp add: word_sless_alt)
  have "num_samples pcm_length nch = word_of_int (sint (num_samples pcm_length nch))"
    by simp
  also have "\<dots> = word_of_int (sint pcm_length div 2 div sint nch)"
    using assms by (simp only: sint_num_samples)
  also have "\<dots> = c_int_div (c_int_div pcm_length 2) nch"
    using nn c by (simp add: c_int_div_def [of "c_int_div pcm_length 2"] sint_c_int_div_2 [OF assms(1)] sdiv_int_nonneg)
  finally show ?thesis .
qed

lemma num_samples_discards:
  assumes "0 \<le>s pcm_length" "0 <s nch"
  shows "sint (num_samples pcm_length nch) = sint pcm_length div (2 * sint nch)"
    and "0 \<le> sint pcm_length - sint (num_samples pcm_length nch) * (2 * sint nch)"
    and "sint pcm_length - sint (num_samples pcm_length nch) * (2 * sint nch) \<le> 2 * sint nch - 1"
proof -
  have c: "0 < sint nch"
    using assms(2) by (simp add: word_sless_alt)
  show q: "sint (num_samples pcm_length nch) = sint pcm_length div (2 * sint nch)"
    using c by (simp add: sint_num_samples [OF assms] zdiv_zmult2_eq)
  have k: "0 < 2 * sint nch"
    using c by simp
  have m: "sint pcm_length - sint pcm_length div (2 * sint nch) * (2 * sint nch) =
      sint pcm_length mod (2 * sint nch)"
    by (simp add: minus_div_mult_eq_mod)
  show "0 \<le> sint pcm_length - sint (num_samples pcm_length nch) * (2 * sint nch)"
    unfolding q m using k by (rule pos_mod_sign)
  have "sint pcm_length mod (2 * sint nch) < 2 * sint nch"
    using k by (rule pos_mod_bound)
  then show "sint pcm_length - sint (num_samples pcm_length nch) * (2 * sint nch) \<le> 2 * sint nch - 1"
    unfolding q m by simp
qed

lemma num_samples_examples:
  "num_samples (- 5) 1 = 2147483645"
  "num_samples (- 4) 1 = 2147483646"
  "num_samples 1920 1 = 960"
  by (simp_all add: num_samples_def int_to_size_t_def size_t_to_int_def sizeof_opus_int16_def)

lemma c_int_div_examples:
  "c_int_div (c_int_div (- 5) 2) 1 = - 2"
  "c_int_div (c_int_div (- 4) 2) 1 = - 2"
  "c_int_div (c_int_div 1920 2) 1 = 960"
  "c_int_div 8000 50 = 160" "c_int_div 12000 50 = 240" "c_int_div 16000 50 = 320"
  "c_int_div 24000 50 = 480" "c_int_div 48000 50 = 960"
  by (simp_all add: c_int_div_def signed_divide_int_def)

lemma sint_frame_size_rates:
  assumes "rate \<in> {8000, 12000, 16000, 24000, 48000}"
  shows "sint (c_int_div rate 50) = sint rate div 50"
  using assms by (auto simp: c_int_div_examples)

section \<open>What each entry point does\<close>

text \<open>The definitions with the engine's answer named and the branches laid out.\<close>

lemma encode_valid:
  assumes "ctx \<noteq> NULL" "ctx_heap w ctx = Some c" "encoder c \<noteq> NULL"
    and "pcm_data \<noteq> NULL" "output_buffer \<noteq> NULL" "channels c \<noteq> 0"
    and "opus_encode E (encoder c) pcm_data (num_samples pcm_length (channels c))
           output_buffer output_buffer_size (buffers w, engine_state w) = (r, m', e')"
  shows "opus_frame_encode E ctx pcm_data pcm_length output_buffer output_buffer_size w =
     Inr (r, w\<lparr>buffers := m', engine_state := e',
               call_log := call_log w @
                 [EngineEncode (encoder c) pcm_data (num_samples pcm_length (channels c))
                    output_buffer output_buffer_size]\<rparr>)"
  using assms by (simp add: opus_frame_encode_def)

lemma create_cases:
  assumes "opus_encoder_create E rate nch application (engine_state w) = ((enc, err), e')"
  shows "opus_frame_encoder_create E ctx uninit rate nch application w =
    (if ctx = NULL then (NULL, w\<lparr>call_log := call_log w @ [Malloc ctx]\<rparr>)
     else if err \<noteq> OPUS_OK E \<or> enc = NULL
     then (NULL, w\<lparr>ctx_heap := (ctx_heap w)(ctx := None), engine_state := e',
                    call_log := call_log w @ [Malloc ctx, EngineCreate rate nch application, Free ctx]\<rparr>)
     else (ctx, w\<lparr>ctx_heap := (ctx_heap w)(ctx \<mapsto>
                      \<lparr>encoder = enc, sample_rate = rate, channels = nch,
                       frame_size = c_int_div rate 50\<rparr>),
                  engine_state := e',
                  call_log := call_log w @ [Malloc ctx, EngineCreate rate nch application]\<rparr>))"
  using assms by (cases uninit) (simp add: opus_frame_encoder_create_def Let_def)

lemma destroy_cases:
  "opus_frame_encoder_destroy E ctx w =
     (if ctx = NULL then Inr w
      else case ctx_heap w ctx of
        None \<Rightarrow> Inl InvalidPointer
      | Some c \<Rightarrow>
          Inr (w\<lparr>ctx_heap := (ctx_heap w)(ctx := None),
                 engine_state := (if encoder c \<noteq> NULL
                                  then opus_encoder_destroy E (encoder c) (engine_state w)
                                  else engine_state w),
                 call_log := call_log w @
                   (if encoder c \<noteq> NULL then [EngineDestroy (encoder c)] else []) @ [Free ctx]\<rparr>))"
  by (simp add: opus_frame_encoder_destroy_def Let_def split: option.split)

lemma tuning_cases:
  "opus_frame_encoder_set_bitrate E ctx v w =
     (if ctx = NULL then Inr (- 1, w)
      else case ctx_heap w ctx of
        None \<Rightarrow> Inl InvalidPointer
      | Some c \<Rightarrow>
          if encoder c = NULL then Inr (- 1, w)
          else Inr (fst (opus_encoder_ctl E (encoder c) (OPUS_SET_BITRATE v) (engine_state w)),
                    w\<lparr>engine_state :=
                        snd (opus_encoder_ctl E (encoder c) (OPUS_SET_BITRATE v) (engine_state w)),
                      call_log := call_log w @ [EngineCtl (encoder c) (OPUS_SET_BITRATE v)]\<rparr>))"
  "opus_frame_encoder_set_complexity E ctx v w =
     (if ctx = NULL then Inr (- 1, w)
      else case ctx_heap w ctx of
        None \<Rightarrow> Inl InvalidPointer
      | Some c \<Rightarrow>
          if encoder c = NULL then Inr (- 1, w)
          else Inr (fst (opus_encoder_ctl E (encoder c) (OPUS_SET_COMPLEXITY v) (engine_state w)),
                    w\<lparr>engine_state :=
                        snd (opus_encoder_ctl E (encoder c) (OPUS_SET_COMPLEXITY v) (engine_state w)),
                      call_log := call_log w @ [EngineCtl (encoder c) (OPUS_SET_COMPLEXITY v)]\<rparr>))"
  by (simp_all add: opus_frame_encoder_set_bitrate_def opus_frame_encoder_set_complexity_def
        encoder_ctl_def split_beta split: option.split)

lemma encode_keeps_heap:
  assumes "opus_frame_encode E ctx pcm_data pcm_length output_buffer output_buffer_size w = Inr (r, w')"
  shows "ctx_heap w' = ctx_heap w"
  using assms
  by (auto simp: opus_frame_encode_def Let_def split_beta split: if_splits option.splits)

lemma encode_effects:
  assumes "opus_frame_encode E ctx pcm_data pcm_length output_buffer output_buffer_size w = Inr (r, w')"
  shows "(r = - 1 \<and> w' = w) \<or>
     (\<exists>c. ctx_heap w ctx = Some c \<and>
        (r, buffers w', engine_state w') =
          opus_encode E (encoder c) pcm_data (num_samples pcm_length (channels c))
            output_buffer output_buffer_size (buffers w, engine_state w) \<and>
        call_log w' = call_log w @
          [EngineEncode (encoder c) pcm_data (num_samples pcm_length (channels c))
             output_buffer output_buffer_size])"
proof (cases "ctx = NULL")
  case True
  with assms show ?thesis
    by (simp add: opus_frame_encode_def)
next
  case False
  show ?thesis
  proof (cases "ctx_heap w ctx")
    case None
    with assms False show ?thesis
      by (simp add: opus_frame_encode_def)
  next
    case (Some c)
    show ?thesis
    proof (cases "encoder c = NULL \<or> pcm_data = NULL \<or> output_buffer = NULL")
      case True
      with assms False Some show ?thesis
        by (auto simp: opus_frame_encode_def)
    next
      case ok: False
      with assms False Some have nz: "channels c \<noteq> 0"
        by (auto simp: opus_frame_encode_def split: if_splits)
      obtain r0 m' e' where
        eng: "opus_encode E (encoder c) pcm_data (num_samples pcm_length (channels c))
                output_buffer output_buffer_size (buffers w, engine_state w) = (r0, m', e')"
        by (metis surj_pair)
      from ok have "encoder c \<noteq> NULL" "pcm_data \<noteq> NULL" "output_buffer \<noteq> NULL"
        by simp_all
      from encode_valid [OF False Some this nz eng] assms
      have "r = r0" and "w' = w\<lparr>buffers := m', engine_state := e',
               call_log := call_log w @
                 [EngineEncode (encoder c) pcm_data (num_samples pcm_length (channels c))
                    output_buffer output_buffer_size]\<rparr>"
        by simp_all
      with Some eng show ?thesis
        by simp
    qed
  qed
qed

lemma set_bitrate_keeps_heap:
  assumes "opus_frame_encoder_set_bitrate E ctx bitrate w = Inr (r, w')"
  shows "ctx_heap w' = ctx_heap w \<and> buffers w' = buffers w"
  using assms by (auto simp: tuning_cases split: if_splits option.splits)

lemma set_complexity_keeps_heap:
  assumes "opus_frame_encoder_set_complexity E ctx complexity w = Inr (r, w')"
  shows "ctx_heap w' = ctx_heap w \<and> buffers w' = buffers w"
  using assms by (auto simp: tuning_cases split: if_splits option.splits)

lemma get_frame_size_same_heap:
  assumes "ctx_heap w' = ctx_heap w"
  shows "opus_frame_encoder_get_frame_size p w' = opus_frame_encoder_get_frame_size p w"
  using assms by (simp add: opus_frame_encoder_get_frame_size_def)

section \<open>The concrete engine and worlds\<close>

lemma demo_engine_simps:
  "OPUS_OK demo_engine = 0"
  "opus_encoder_create demo_engine rate nch application live =
     (if rate \<in> {8000, 12000, 16000, 24000, 48000} \<and> nch \<in> {1, 2}
      then ((4096, 0), Suc live) else ((NULL, - 1), live))"
  "opus_encode demo_engine enc pcm n out cap (m, live) =
     (if 0 <s n \<and> 0 <s cap then (1, m(out := m pcm), live) else (- 1, m, live))"
  "opus_encoder_ctl demo_engine enc req live =
     (case req of
        OPUS_SET_BITRATE v \<Rightarrow> if 0 <s v then (0, live) else (- 1, live)
      | OPUS_SET_COMPLEXITY v \<Rightarrow> if 0 \<le>s v \<and> v \<le>s 10 then (0, live) else (- 1, live))"
  "opus_encoder_destroy demo_engine enc live = live - 1"
  by (simp_all add: demo_engine_def)

lemma demo_world_simps:
  "ctx_heap demo_world = [16 \<mapsto> demo_ctx]"
  "engine_state demo_world = 1"
  "call_log demo_world = [Malloc 16, EngineCreate 48000 1 2049]"
  "buffers demo_world a = 0"
  by (simp_all add: demo_world_def)

lemma empty_world_simps:
  "ctx_heap empty_world = Map.empty"
  "engine_state empty_world = 0"
  "call_log empty_world = []"
  "buffers empty_world a = 0"
  by (simp_all add: empty_world_def)

lemma demo_ctx_simps:
  "encoder demo_ctx = 4096" "sample_rate demo_ctx = 48000"
  "channels demo_ctx = 1" "frame_size demo_ctx = 960"
  by (simp_all add: demo_ctx_def)

lemma demo_world_created:
  "opus_frame_encoder_create demo_engine 16 demo_uninit 48000 1 2049 empty_world = (16, demo_world)"
  by (simp add: opus_frame_encoder_create_def demo_engine_simps empty_world_def demo_world_def
        demo_ctx_def demo_uninit_def NULL_def c_int_div_examples)

lemma demo_calls:
  "opus_frame_encode demo_engine 16 32 1920 48 4000 demo_world =
     Inr (1, demo_world\<lparr>buffers := (buffers demo_world)(48 := buffers demo_world 32),
                        engine_state := 1,
                        call_log := call_log demo_world @ [EngineEncode 4096 32 960 48 4000]\<rparr>)"
  "opus_frame_encoder_set_bitrate demo_engine 16 64000 demo_world =
      Inr (0, demo_world\<lparr>engine_state := 1,
                         call_log := call_log demo_world @ [EngineCtl 4096 (OPUS_SET_BITRATE 64000)]\<rparr>)"
  "opus_frame_encoder_set_complexity demo_engine 16 5 demo_world =
      Inr (0, demo_world\<lparr>engine_state := 1,
                         call_log := call_log demo_world @ [EngineCtl 4096 (OPUS_SET_COMPLEXITY 5)]\<rparr>)"
  by (simp_all add: opus_frame_encode_def tuning_cases demo_world_simps demo_ctx_simps
        demo_engine_simps num_samples_examples NULL_def word_sless_alt word_sle_eq)

section \<open>Handles held by a caller\<close>

text \<open>
  Every call of the interface keeps the held handles valid: only \<open>Create\<close> and
  \<open>Destroy\<close> touch the context heap, the first at a block that was not live, the
  second at the handle it takes away.
\<close>

lemma handles_validI:
  assumes "\<And>h rate nch. (h, rate, nch) \<in> set hs \<Longrightarrow>
      h \<noteq> NULL \<and> (\<exists>c. ctx_heap w h = Some c \<and> ctx_valid c rate nch)"
  shows "handles_valid hs w"
  unfolding handles_valid_def list_all_iff
proof
  fix x assume x: "x \<in> set hs"
  obtain h rate nch where t: "x = (h, rate, nch)"
    by (cases x) auto
  from assms [of h rate nch] x t
  show "case x of (h, rate, nch) \<Rightarrow> h \<noteq> NULL \<and>
      (case ctx_heap w h of None \<Rightarrow> False | Some c \<Rightarrow> ctx_valid c rate nch)"
    by auto
qed

lemma handles_validD:
  assumes "handles_valid hs w" "(h, rate, nch) \<in> set hs"
  shows "h \<noteq> NULL \<and> (\<exists>c. ctx_heap w h = Some c \<and> ctx_valid c rate nch)"
proof -
  from assms have "h \<noteq> NULL \<and>
      (case ctx_heap w h of None \<Rightarrow> False | Some c \<Rightarrow> ctx_valid c rate nch)"
    unfolding handles_valid_def list_all_iff by blast
  then show ?thesis
    by (cases "ctx_heap w h") simp_all
qed

lemma handles_valid_same_heap:
  assumes "handles_valid hs w" "ctx_heap w' = ctx_heap w"
  shows "handles_valid hs w'"
  using assms by (simp add: handles_valid_def)

lemma handles_valid_other:
  assumes v: "handles_valid hs w"
    and same: "\<And>h. h \<noteq> ctx \<Longrightarrow> ctx_heap w' h = ctx_heap w h"
    and none: "ctx_heap w ctx = None"
  shows "handles_valid hs w'"
proof (rule handles_validI)
  fix h rate nch assume "(h, rate, nch) \<in> set hs"
  from handles_validD [OF v this] obtain c where
    h: "h \<noteq> NULL" "ctx_heap w h = Some c" "ctx_valid c rate nch"
    by blast
  from h(2) none have "h \<noteq> ctx" by auto
  with same h show "h \<noteq> NULL \<and> (\<exists>c. ctx_heap w' h = Some c \<and> ctx_valid c rate nch)"
    by simp
qed

lemma handles_valid_filter:
  assumes v: "handles_valid hs w"
    and same: "\<And>h. h \<noteq> ctx \<Longrightarrow> ctx_heap w' h = ctx_heap w h"
  shows "handles_valid (filter (\<lambda>(h, rate, nch). h \<noteq> ctx) hs) w'"
proof (rule handles_validI)
  fix h rate nch assume "(h, rate, nch) \<in> set (filter (\<lambda>(h, rate, nch). h \<noteq> ctx) hs)"
  then have m: "(h, rate, nch) \<in> set hs" and ne: "h \<noteq> ctx"
    by simp_all
  from handles_validD [OF v m] same [OF ne]
  show "h \<noteq> NULL \<and> (\<exists>c. ctx_heap w' h = Some c \<and> ctx_valid c rate nch)"
    by simp
qed

lemma create_preserves_valid:
  assumes v: "handles_valid hs w"
    and fresh: "ctx = NULL \<or> ctx_heap w ctx = None"
    and c: "opus_frame_encoder_create E ctx uninit rate nch application w = (h, w')"
  shows "handles_valid (if h = NULL then hs else (h, rate, nch) # hs) w'"
proof -
  obtain enc err e' where
    eng: "opus_encoder_create E rate nch application (engine_state w) = ((enc, err), e')"
    by (metis surj_pair)
  show ?thesis
  proof (cases "ctx = NULL")
    case True
    with c have "h = NULL" "ctx_heap w' = ctx_heap w"
      unfolding create_cases [OF eng] by auto
    with v show ?thesis
      by (simp add: handles_valid_same_heap)
  next
    case False
    with fresh have none: "ctx_heap w ctx = None" by simp
    show ?thesis
    proof (cases "err \<noteq> OPUS_OK E \<or> enc = NULL")
      case True
      with c False none have "h = NULL" "ctx_heap w' = ctx_heap w"
        unfolding create_cases [OF eng] by auto
      with v show ?thesis
        by (simp add: handles_valid_same_heap)
    next
      case ok: False
      with c False have h: "h = ctx"
        and heap: "ctx_heap w' = (ctx_heap w)(ctx \<mapsto>
                      \<lparr>encoder = enc, sample_rate = rate, channels = nch,
                       frame_size = c_int_div rate 50\<rparr>)"
        unfolding create_cases [OF eng] by auto
      have old: "handles_valid hs w'"
        using v _ none by (rule handles_valid_other) (simp add: heap)
      have new: "ctx_valid \<lparr>encoder = enc, sample_rate = rate, channels = nch,
                       frame_size = c_int_div rate 50\<rparr> rate nch"
        using ok by (simp add: ctx_valid_def)
      show ?thesis
        using old new False by (simp add: h handles_valid_def heap)
    qed
  qed
qed

lemma step_preserves_valid:
  assumes "handles_valid hs w" "malloc_fresh c w" "api_step E c w = Inr (r, w')"
  shows "handles_valid (track c r hs) w'"
proof (cases c)
  case (Create ctx uninit rate nch application)
  obtain h w1 where cr: "opus_frame_encoder_create E ctx uninit rate nch application w = (h, w1)"
    by (metis surj_pair)
  with assms(3) Create have r: "r = Handle h" "w' = w1"
    by simp_all
  from assms(2) Create have "ctx = NULL \<or> ctx_heap w ctx = None"
    by simp
  from create_preserves_valid [OF assms(1) this cr] show ?thesis
    by (simp add: Create r)
next
  case (GetFrameSize ctx)
  with assms show ?thesis
    by (auto split: sum.splits)
next
  case (Encode ctx pcm_data pcm_length output_buffer output_buffer_size)
  with assms(3) have "ctx_heap w' = ctx_heap w"
    by (auto simp: opus_frame_encode_def Let_def split_beta split: sum.splits if_splits option.splits)
  with assms(1) show ?thesis
    by (simp add: Encode handles_valid_same_heap)
next
  case (Destroy ctx)
  with assms(3) have "\<And>h. h \<noteq> ctx \<Longrightarrow> ctx_heap w' h = ctx_heap w h"
    by (auto simp: destroy_cases split: sum.splits if_splits option.splits)
  with assms(1) show ?thesis
    by (simp add: Destroy handles_valid_filter)
next
  case (SetBitrate ctx v)
  with assms(3) have "ctx_heap w' = ctx_heap w"
    by (auto simp: tuning_cases split: sum.splits if_splits option.splits)
  with assms(1) show ?thesis
    by (simp add: SetBitrate handles_valid_same_heap)
next
  case (SetComplexity ctx v)
  with assms(3) have "ctx_heap w' = ctx_heap w"
    by (auto simp: tuning_cases split: sum.splits if_splits option.splits)
  with assms(1) show ?thesis
    by (simp add: SetComplexity handles_valid_same_heap)
qed

section \<open>Two handles in step\<close>

text \<open>
  The bytes a caller copies into its PCM buffer are the bytes found there, and the
  sample count of line 55 never reaches past them.
\<close>

lemma write_bytes_at:
  "write_bytes a bs m x = (if a \<le> x \<and> x < a + length bs then bs ! (x - a) else m x)"
proof (induction bs arbitrary: a m)
  case Nil
  show ?case by auto
next
  case (Cons b bs)
  have ih: "write_bytes (Suc a) bs (m(a := b)) x =
      (if Suc a \<le> x \<and> x < Suc a + length bs then bs ! (x - Suc a) else (m(a := b)) x)"
    by (rule Cons.IH)
  show ?case
  proof (cases "x = a")
    case True
    with ih show ?thesis by simp
  next
    case False
    with ih show ?thesis
      by (auto simp: nth_Cons' Suc_diff_Suc)
  qed
qed

lemma unat_num_samples:
  "unat (num_samples pcm_length nch) = unat pcm_length div 2 div unat nch"
  by (simp add: num_samples_def int_to_size_t_def size_t_to_int_def sizeof_opus_int16_def unat_div)

lemma num_samples_within_frame:
  "2 * unat (num_samples (of_nat L) nch) * unat nch \<le> L"
proof -
  define u where "u = unat (of_nat L :: c_int)"
  define q where "q = u div 2"
  define k where "k = q div unat nch"
  have "u \<le> L"
    by (simp add: u_def unat_of_nat)
  moreover have "2 * q \<le> u"
    by (simp add: q_def)
  moreover have "k * unat nch \<le> q"
    unfolding k_def by (rule div_times_less_eq_dividend)
  ultimately have "2 * k * unat nch \<le> L"
    by simp
  then show ?thesis
    by (simp add: unat_num_samples k_def q_def u_def)
qed

text \<open>
  Under the library's contract, a call on two handles that are in step returns the same
  value and the same compressed bytes, and leaves them in step.
\<close>

lemma encoded_frame_cong:
  assumes "\<forall>i < nat (sint r). m1 (out + i) = m2 (out + i)"
  shows "encoded_frame out r m1 = encoded_frame out r m2"
  unfolding encoded_frame_def
proof (rule map_cong [OF refl])
  fix x assume "x \<in> set [out ..< out + nat (sint r)]"
  then have "x - out < nat (sint r)" and "out + (x - out) = x"
    by auto
  with assms show "m1 x = m2 x"
    by metis
qed

lemma isolated_create:
  assumes "engine_isolated E inst chans"
    and "opus_encoder_create E rate nch application e1 = ((enc1, OPUS_OK E), e1')" "enc1 \<noteq> NULL"
    and "opus_encoder_create E rate nch application e2 = ((enc2, OPUS_OK E), e2')" "enc2 \<noteq> NULL"
  shows "inst e1' enc1 = inst e2' enc2 \<and> chans (inst e1' enc1) = nch"
  using assms unfolding engine_isolated_def create_contract_def by blast

lemma isolated_encode:
  assumes "engine_isolated E inst chans"
    and "enc1 \<noteq> NULL" "enc2 \<noteq> NULL" "inst e1 enc1 = inst e2 enc2"
    and "\<forall>i < 2 * unat n * unat (chans (inst e1 enc1)). m1 (pcm + i) = m2 (pcm + i)"
    and "opus_encode E enc1 pcm n out cap (m1, e1) = (r1, m1', e1')"
    and "opus_encode E enc2 pcm n out cap (m2, e2) = (r2, m2', e2')"
  shows "r1 = r2 \<and> inst e1' enc1 = inst e2' enc2 \<and>
     chans (inst e1' enc1) = chans (inst e1 enc1) \<and>
     (\<forall>i < nat (sint r1). m1' (out + i) = m2' (out + i))"
proof -
  from assms(1) have "encode_contract E inst chans"
    by (simp add: engine_isolated_def)
  then show ?thesis
    unfolding encode_contract_def using assms(2-7) by blast
qed

lemma isolated_ctl:
  assumes "engine_isolated E inst chans"
    and "enc1 \<noteq> NULL" "enc2 \<noteq> NULL" "inst e1 enc1 = inst e2 enc2"
    and "opus_encoder_ctl E enc1 req e1 = (s1, e1')"
    and "opus_encoder_ctl E enc2 req e2 = (s2, e2')"
  shows "s1 = s2 \<and> inst e1' enc1 = inst e2' enc2 \<and> chans (inst e1' enc1) = chans (inst e1 enc1)"
proof -
  from assms(1) have "ctl_contract E inst chans"
    by (simp add: engine_isolated_def)
  then show ?thesis
    unfolding ctl_contract_def using assms(2-6) by blast
qed

lemma in_stepD:
  assumes "in_step inst chans nch h1 w1 h2 w2"
  obtains c1 c2 where "h1 \<noteq> NULL" "h2 \<noteq> NULL"
    "ctx_heap w1 h1 = Some c1" "ctx_heap w2 h2 = Some c2"
    "encoder c1 \<noteq> NULL" "encoder c2 \<noteq> NULL" "channels c1 = nch" "channels c2 = nch"
    "inst (engine_state w1) (encoder c1) = inst (engine_state w2) (encoder c2)"
    "chans (inst (engine_state w1) (encoder c1)) = nch"
  using assms unfolding in_step_def by blast

lemma in_stepI:
  assumes "h1 \<noteq> NULL" "h2 \<noteq> NULL"
    "ctx_heap w1 h1 = Some c1" "ctx_heap w2 h2 = Some c2"
    "encoder c1 \<noteq> NULL" "encoder c2 \<noteq> NULL" "channels c1 = nch" "channels c2 = nch"
    "inst (engine_state w1) (encoder c1) = inst (engine_state w2) (encoder c2)"
    "chans (inst (engine_state w1) (encoder c1)) = nch"
  shows "in_step inst chans nch h1 w1 h2 w2"
  using assms unfolding in_step_def by blast

lemma ctl_in_step:
  assumes iso: "engine_isolated E inst chans"
    and st: "in_step inst chans nch h1 w1 h2 w2"
    and c1: "ctx_heap w1 h1 = Some c1" and c2: "ctx_heap w2 h2 = Some c2"
  shows "\<exists>r w1' w2'. encoder_ctl E (encoder c1) req w1 = (r, w1') \<and>
           encoder_ctl E (encoder c2) req w2 = (r, w2') \<and>
           in_step inst chans nch h1 w1' h2 w2'"
proof -
  from st c1 c2 have f: "h1 \<noteq> NULL" "h2 \<noteq> NULL" "encoder c1 \<noteq> NULL" "encoder c2 \<noteq> NULL"
    "channels c1 = nch" "channels c2 = nch"
    "inst (engine_state w1) (encoder c1) = inst (engine_state w2) (encoder c2)"
    "chans (inst (engine_state w1) (encoder c1)) = nch"
    by (auto elim!: in_stepD)
  obtain s1 e1' where a1: "opus_encoder_ctl E (encoder c1) req (engine_state w1) = (s1, e1')"
    by (cases "opus_encoder_ctl E (encoder c1) req (engine_state w1)") auto
  obtain s2 e2' where a2: "opus_encoder_ctl E (encoder c2) req (engine_state w2) = (s2, e2')"
    by (cases "opus_encoder_ctl E (encoder c2) req (engine_state w2)") auto
  from isolated_ctl [OF iso f(3,4,7) a1 a2]
  have g: "s1 = s2" "inst e1' (encoder c1) = inst e2' (encoder c2)"
    "chans (inst e1' (encoder c1)) = chans (inst (engine_state w1) (encoder c1))"
    by auto
  let ?v1 = "w1\<lparr>engine_state := e1', call_log := call_log w1 @ [EngineCtl (encoder c1) req]\<rparr>"
  let ?v2 = "w2\<lparr>engine_state := e2', call_log := call_log w2 @ [EngineCtl (encoder c2) req]\<rparr>"
  have "in_step inst chans nch h1 ?v1 h2 ?v2"
    using f g c1 c2 by (intro in_stepI [of _ _ _ c1 _ c2]) simp_all
  then show ?thesis
    using a1 a2 g(1) by (simp add: encoder_ctl_def)
qed

lemma tune_in_step:
  assumes iso: "engine_isolated E inst chans"
    and st: "in_step inst chans nch h1 w1 h2 w2"
    and c: "c = TuneBitrate v \<or> c = TuneComplexity v"
  shows "\<exists>r w1' w2'. handle_step E h1 c w1 = Inr (r, w1') \<and>
           handle_step E h2 c w2 = Inr (r, w2') \<and>
           observed c r (buffers w1') = observed c r (buffers w2') \<and>
           in_step inst chans nch h1 w1' h2 w2'"
proof -
  from st obtain c1 c2 where f: "h1 \<noteq> NULL" "h2 \<noteq> NULL"
    "ctx_heap w1 h1 = Some c1" "ctx_heap w2 h2 = Some c2"
    "encoder c1 \<noteq> NULL" "encoder c2 \<noteq> NULL"
    by (elim in_stepD)
  from c show ?thesis
  proof
    assume b: "c = TuneBitrate v"
    from ctl_in_step [OF iso st f(3,4), of "OPUS_SET_BITRATE v"] f show ?thesis
      by (auto simp: b opus_frame_encoder_set_bitrate_def)
  next
    assume b: "c = TuneComplexity v"
    from ctl_in_step [OF iso st f(3,4), of "OPUS_SET_COMPLEXITY v"] f show ?thesis
      by (auto simp: b opus_frame_encoder_set_complexity_def)
  qed
qed

lemma encode_in_step:
  assumes iso: "engine_isolated E inst chans"
    and st: "in_step inst chans nch h1 w1 h2 w2"
    and c: "c = EncodeFrame pcm frame out cap"
  shows "(\<exists>f. handle_step E h1 c w1 = Inl f \<and> handle_step E h2 c w2 = Inl f) \<or>
     (\<exists>r w1' w2'. handle_step E h1 c w1 = Inr (r, w1') \<and>
           handle_step E h2 c w2 = Inr (r, w2') \<and>
           observed c r (buffers w1') = observed c r (buffers w2') \<and>
           in_step inst chans nch h1 w1' h2 w2')"
proof -
  from st obtain c1 c2 where f: "h1 \<noteq> NULL" "h2 \<noteq> NULL"
    "ctx_heap w1 h1 = Some c1" "ctx_heap w2 h2 = Some c2"
    "encoder c1 \<noteq> NULL" "encoder c2 \<noteq> NULL" "channels c1 = nch" "channels c2 = nch"
    "inst (engine_state w1) (encoder c1) = inst (engine_state w2) (encoder c2)"
    "chans (inst (engine_state w1) (encoder c1)) = nch"
    by (elim in_stepD)
  let ?v1 = "w1\<lparr>buffers := write_bytes pcm frame (buffers w1)\<rparr>"
  let ?v2 = "w2\<lparr>buffers := write_bytes pcm frame (buffers w2)\<rparr>"
  let ?len = "of_nat (length frame) :: c_int"
  let ?n = "num_samples ?len nch"
  have stv: "in_step inst chans nch h1 ?v1 h2 ?v2"
    using f by (intro in_stepI [of _ _ _ c1 _ c2]) simp_all
  have hv: "ctx_heap ?v1 h1 = Some c1" "ctx_heap ?v2 h2 = Some c2"
    using f by simp_all
  show ?thesis
  proof (cases "pcm = NULL \<or> out = NULL")
    case True
    have "handle_step E h1 c w1 = Inr (- 1, ?v1)" "handle_step E h2 c w2 = Inr (- 1, ?v2)"
      using True f by (auto simp: c opus_frame_encode_def)
    moreover have "observed c (- 1) (buffers ?v1) = observed c (- 1) (buffers ?v2)"
      by (simp add: c encoded_frame_def)
    ultimately show ?thesis
      using stv by blast
  next
    case nonnull: False
    show ?thesis
    proof (cases "nch = 0")
      case True
      have "handle_step E h1 c w1 = Inl DivisionByZero" "handle_step E h2 c w2 = Inl DivisionByZero"
        using True nonnull f by (auto simp: c opus_frame_encode_def)
      then show ?thesis by blast
    next
      case nz: False
      obtain r1 m1' e1' where a1:
        "opus_encode E (encoder c1) pcm ?n out cap (buffers ?v1, engine_state ?v1) = (r1, m1', e1')"
        by (metis prod_cases3)
      obtain r2 m2' e2' where a2:
        "opus_encode E (encoder c2) pcm ?n out cap (buffers ?v2, engine_state ?v2) = (r2, m2', e2')"
        by (metis prod_cases3)
      have agree: "\<forall>i < 2 * unat ?n * unat (chans (inst (engine_state w1) (encoder c1))).
          buffers ?v1 (pcm + i) = buffers ?v2 (pcm + i)"
      proof (intro allI impI)
        fix i assume "i < 2 * unat ?n * unat (chans (inst (engine_state w1) (encoder c1)))"
        with num_samples_within_frame [of "length frame" nch] f(10)
        have "i < length frame" by simp
        then show "buffers ?v1 (pcm + i) = buffers ?v2 (pcm + i)"
          by (simp add: write_bytes_at)
      qed
      from a1 a2 have b1:
        "opus_encode E (encoder c1) pcm ?n out cap
           (write_bytes pcm frame (buffers w1), engine_state w1) = (r1, m1', e1')"
        and b2:
        "opus_encode E (encoder c2) pcm ?n out cap
           (write_bytes pcm frame (buffers w2), engine_state w2) = (r2, m2', e2')"
        by simp_all
      from agree have agree':
        "\<forall>i < 2 * unat ?n * unat (chans (inst (engine_state w1) (encoder c1))).
          write_bytes pcm frame (buffers w1) (pcm + i) = write_bytes pcm frame (buffers w2) (pcm + i)"
        by simp
      from isolated_encode [OF iso f(5,6,9) agree' b1 b2]
      have g: "r1 = r2" "inst e1' (encoder c1) = inst e2' (encoder c2)"
        "chans (inst e1' (encoder c1)) = chans (inst (engine_state w1) (encoder c1))"
        "\<forall>i < nat (sint r1). m1' (out + i) = m2' (out + i)"
        by auto
      let ?u1 = "?v1\<lparr>buffers := m1', engine_state := e1',
        call_log := call_log ?v1 @ [EngineEncode (encoder c1) pcm ?n out cap]\<rparr>"
      let ?u2 = "?v2\<lparr>buffers := m2', engine_state := e2',
        call_log := call_log ?v2 @ [EngineEncode (encoder c2) pcm ?n out cap]\<rparr>"
      from nonnull have nn: "pcm \<noteq> NULL" "out \<noteq> NULL" by simp_all
      have ch1: "channels c1 \<noteq> 0" and ch2: "channels c2 \<noteq> 0"
        using nz f by simp_all
      have s1: "handle_step E h1 c w1 = Inr (r1, ?u1)"
        using encode_valid [OF f(1) hv(1) f(5) nn ch1, of E ?len cap r1 m1' e1'] a1 f(7)
        by (simp add: c)
      have s2: "handle_step E h2 c w2 = Inr (r1, ?u2)"
        using encode_valid [OF f(2) hv(2) f(6) nn ch2, of E ?len cap r2 m2' e2'] a2 f(8) g(1)
        by (simp add: c)
      have o: "observed c r1 (buffers ?u1) = observed c r1 (buffers ?u2)"
        using encoded_frame_cong [OF g(4)] by (simp add: c)
      have "in_step inst chans nch h1 ?u1 h2 ?u2"
        using f g by (intro in_stepI [of _ _ _ c1 _ c2]) simp_all
      with s1 s2 o show ?thesis by blast
    qed
  qed
qed

lemma handle_step_in_step:
  assumes iso: "engine_isolated E inst chans"
    and st: "in_step inst chans nch h1 w1 h2 w2"
  shows "(\<exists>f. handle_step E h1 c w1 = Inl f \<and> handle_step E h2 c w2 = Inl f) \<or>
     (\<exists>r w1' w2'. handle_step E h1 c w1 = Inr (r, w1') \<and>
           handle_step E h2 c w2 = Inr (r, w2') \<and>
           observed c r (buffers w1') = observed c r (buffers w2') \<and>
           in_step inst chans nch h1 w1' h2 w2')"
proof (cases c)
  case (TuneBitrate v)
  then have "c = TuneBitrate v \<or> c = TuneComplexity v" by simp
  from tune_in_step [OF iso st this] show ?thesis by blast
next
  case (TuneComplexity v)
  then have "c = TuneBitrate v \<or> c = TuneComplexity v" by simp
  from tune_in_step [OF iso st this] show ?thesis by blast
next
  case (EncodeFrame pcm frame out cap)
  from encode_in_step [OF iso st this] show ?thesis .
qed

lemma run_calls_in_step:
  assumes iso: "engine_isolated E inst chans"
    and st: "in_step inst chans nch h1 w1 h2 w2"
  shows "run_calls E h1 cs w1 = run_calls E h2 cs w2"
  using st
proof (induction cs arbitrary: w1 w2)
  case Nil
  show ?case by simp
next
  case (Cons c cs)
  from handle_step_in_step [OF iso Cons.prems, of c] show ?case
  proof (elim disjE exE conjE)
    fix f assume "handle_step E h1 c w1 = Inl f" "handle_step E h2 c w2 = Inl f"
    then show ?thesis by simp
  next
    fix r w1' w2'
    assume s: "handle_step E h1 c w1 = Inr (r, w1')" "handle_step E h2 c w2 = Inr (r, w2')"
      and o: "observed c r (buffers w1') = observed c r (buffers w2')"
      and n: "in_step inst chans nch h1 w1' h2 w2'"
    from Cons.IH [OF n] show ?thesis
      by (simp add: s o cong: sum.case_cong)
  qed
qed

section \<open>The engine with a history per instance\<close>

text \<open>The second stand-in keeps the library's contract.\<close>

lemma history_engine_simps:
  "OPUS_OK history_engine = 0"
  "opus_encoder_create history_engine rate nch application (next, insts) =
     (if rate \<in> {8000, 12000, 16000, 24000, 48000} \<and> nch \<in> {1, 2}
      then ((next, 0), (next + 64, insts(next \<mapsto> (nch, 0))))
      else ((NULL, - 1), (next, insts)))"
  "opus_encode history_engine enc pcm n out cap (m, (next, insts)) =
     (case insts enc of
        None \<Rightarrow> (- 1, m, (next, insts))
      | Some (nch, k) \<Rightarrow>
          if 0 <s n \<and> 0 <s cap \<and> nch \<noteq> 0
          then (1, m(out := m pcm + k), (next, insts(enc \<mapsto> (nch, k + 1))))
          else (- 1, m, (next, insts)))"
  "opus_encoder_ctl history_engine enc req (next, insts) =
     (case insts enc of
        None \<Rightarrow> (- 1, (next, insts))
      | Some (nch, k) \<Rightarrow>
          (case req of
             OPUS_SET_BITRATE v \<Rightarrow> (if 0 <s v then 0 else - 1, (next, insts))
           | OPUS_SET_COMPLEXITY v \<Rightarrow>
               if 0 \<le>s v \<and> v \<le>s 10 then (0, (next, insts(enc \<mapsto> (nch, k + ucast v))))
               else (- 1, (next, insts))))"
  by (simp_all add: history_engine_def)

lemma history_create_contract: "create_contract history_engine history_inst history_chans"
  unfolding create_contract_def
  by (auto simp: history_engine_simps history_inst_def history_chans_def split: if_splits)

lemma history_encode_contract: "encode_contract history_engine history_inst history_chans"
proof -
  have "r1 = r2 \<and> history_inst e1' enc1 = history_inst e2' enc2 \<and>
        history_chans (history_inst e1' enc1) = history_chans (history_inst e1 enc1) \<and>
        (\<forall>i < nat (sint r1). m1' (out + i) = m2' (out + i))"
    if v: "history_inst e1 enc1 = history_inst e2 enc2"
      and ag: "\<forall>i < 2 * unat n * unat (history_chans (history_inst e1 enc1)).
                 m1 (pcm + i) = m2 (pcm + i)"
      and a1: "opus_encode history_engine enc1 pcm n out cap (m1, e1) = (r1, m1', e1')"
      and a2: "opus_encode history_engine enc2 pcm n out cap (m2, e2) = (r2, m2', e2')"
    for enc1 enc2 e1 e2 m1 m2 pcm n out cap r1 m1' e1' r2 m2' e2'
  proof -
    obtain x1 i1 where e1: "e1 = (x1, i1)" by (cases e1) auto
    obtain x2 i2 where e2: "e2 = (x2, i2)" by (cases e2) auto
    show ?thesis
    proof (cases "i1 enc1")
      case None
      with v have "i2 enc2 = None"
        by (simp add: e1 e2 history_inst_def)
      with None a1 a2 show ?thesis
        by (auto simp: e1 e2 history_engine_simps history_inst_def)
    next
      case (Some p)
      obtain nch k where p: "p = (nch, k)" by (cases p) auto
      from Some v have s2: "i2 enc2 = Some (nch, k)"
        by (simp add: e1 e2 p history_inst_def)
      from Some have s1: "i1 enc1 = Some (nch, k)"
        by (simp add: p)
      show ?thesis
      proof (cases "0 <s n \<and> 0 <s cap \<and> nch \<noteq> 0")
        case True
        then have "n \<noteq> 0" "nch \<noteq> 0" by auto
        then have "0 < unat n" "0 < unat nch"
          by (simp_all add: unat_gt_0)
        then have "0 < 2 * unat n * unat (history_chans (history_inst e1 enc1))"
          by (simp add: e1 s1 history_inst_def history_chans_def)
        with ag have "m1 (pcm + 0) = m2 (pcm + 0)" by blast
        then have "m1 pcm = m2 pcm" by simp
        with True s1 s2 a1 a2 show ?thesis
          by (auto simp: e1 e2 history_engine_simps history_inst_def history_chans_def)
      next
        case False
        with s1 s2 a1 a2 show ?thesis
          by (auto simp: e1 e2 history_engine_simps history_inst_def history_chans_def)
      qed
    qed
  qed
  then show ?thesis
    unfolding encode_contract_def by blast
qed

lemma history_ctl_contract: "ctl_contract history_engine history_inst history_chans"
proof -
  have "s1 = s2 \<and> history_inst e1' enc1 = history_inst e2' enc2 \<and>
        history_chans (history_inst e1' enc1) = history_chans (history_inst e1 enc1)"
    if v: "history_inst e1 enc1 = history_inst e2 enc2"
      and a1: "opus_encoder_ctl history_engine enc1 req e1 = (s1, e1')"
      and a2: "opus_encoder_ctl history_engine enc2 req e2 = (s2, e2')"
    for enc1 enc2 e1 e2 req s1 e1' s2 e2'
  proof -
    obtain x1 i1 where e1: "e1 = (x1, i1)" by (cases e1) auto
    obtain x2 i2 where e2: "e2 = (x2, i2)" by (cases e2) auto
    show ?thesis
    proof (cases "i1 enc1")
      case None
      with v have "i2 enc2 = None"
        by (simp add: e1 e2 history_inst_def)
      with None a1 a2 show ?thesis
        by (auto simp: e1 e2 history_engine_simps history_inst_def)
    next
      case (Some p)
      obtain nch k where p: "p = (nch, k)" by (cases p) auto
      from Some v have s2: "i2 enc2 = Some (nch, k)"
        by (simp add: e1 e2 p history_inst_def)
      from Some have s1: "i1 enc1 = Some (nch, k)"
        by (simp add: p)
      from s1 s2 a1 a2 show ?thesis
        by (cases req)
          (auto simp: e1 e2 history_engine_simps history_inst_def history_chans_def
             split: if_splits)
    qed
  qed
  then show ?thesis
    unfolding ctl_contract_def by blast
qed

lemma history_isolated: "engine_isolated history_engine history_inst history_chans"
  by (simp add: engine_isolated_def history_create_contract history_encode_contract
        history_ctl_contract)

lemma history_created:
  "opus_frame_encoder_create history_engine 16 demo_uninit 48000 1 2049 history_start =
     (16, history_start\<lparr>ctx_heap := [16 \<mapsto> demo_ctx], engine_state := (4160, [4096 \<mapsto> (1, 0)]),
                       call_log := [Malloc 16, EngineCreate 48000 1 2049]\<rparr>)"
  "opus_frame_encoder_create history_engine 64 demo_ctx 48000 1 2049 history_later =
     (64, history_later\<lparr>ctx_heap := [16 \<mapsto> demo_ctx, 64 \<mapsto> demo_ctx\<lparr>encoder := 4160\<rparr>],
                       engine_state := (4224, [4096 \<mapsto> (1, 7), 4160 \<mapsto> (1, 0)]),
                       call_log := [Malloc 16, EngineCreate 48000 1 2049,
                                    Malloc 64, EngineCreate 48000 1 2049]\<rparr>)"
  by (simp_all add: opus_frame_encoder_create_def history_engine_simps history_start_def
        history_later_def demo_ctx_def demo_uninit_def NULL_def c_int_div_examples)

lemma history_worlds_simps:
  "ctx_heap history_start = Map.empty"
  "engine_state history_start = (4096, Map.empty)"
  "buffers history_start a = 0"
  "ctx_heap history_later = [16 \<mapsto> demo_ctx]"
  "engine_state history_later = (4160, [4096 \<mapsto> (1, 7)])"
  "buffers history_later = (\<lambda>a. 0)(32 := 9, 33 := 4, 34 := 2, 35 := 3, 48 := 15)"
  by (simp_all add: history_start_def history_later_def)

lemma history_session_start:
  "run_calls history_engine 16
     [TuneComplexity 5, EncodeFrame 32 [7, 1, 2, 3] 48 4000, EncodeFrame 32 [9, 4] 48 4000]
     (snd (opus_frame_encoder_create history_engine 16 demo_uninit 48000 1 2049 history_start)) =
   Inr [(0, []), (1, [12]), (1, [15])]"
  by (simp add: history_created tuning_cases opus_frame_encode_def history_worlds_simps
        demo_ctx_simps history_engine_simps NULL_def encoded_frame_def word_sless_alt word_sle_eq
        num_samples_def int_to_size_t_def size_t_to_int_def sizeof_opus_int16_def)

section \<open>The claims\<close>

subsection \<open>Frame encode\<close>

text \<open>
  C1, as amended. On a valid handle (non-null, live, encoder set) with non-null PCM and
  output pointers, a non-negative \<open>pcm_length\<close> and a positive channel count, the
  sample count handed to the engine's \<open>opus_encode\<close> is \<open>pcm_length / 2 / channels\<close>
  in C's truncating integer division, and \<open>opus_frame_encode\<close> returns exactly the value
  the engine returned; the world changes by the engine's effects and that one logged call.
\<close>

theorem encode_forwards_sample_count:
  assumes "ctx \<noteq> NULL" "ctx_heap w ctx = Some c" "encoder c \<noteq> NULL"
    and "pcm_data \<noteq> NULL" "output_buffer \<noteq> NULL"
    and "0 \<le>s pcm_length" "0 <s channels c"
    and "opus_encode E (encoder c) pcm_data (c_int_div (c_int_div pcm_length 2) (channels c))
           output_buffer output_buffer_size (buffers w, engine_state w) = (r, m', e')"
  shows "opus_frame_encode E ctx pcm_data pcm_length output_buffer output_buffer_size w =
     Inr (r, w\<lparr>buffers := m', engine_state := e',
               call_log := call_log w @
                 [EngineEncode (encoder c) pcm_data (c_int_div (c_int_div pcm_length 2) (channels c))
                    output_buffer output_buffer_size]\<rparr>)
     \<and> sint (c_int_div (c_int_div pcm_length 2) (channels c)) = sint pcm_length div 2 div sint (channels c)"
proof -
  have n: "num_samples pcm_length (channels c) = c_int_div (c_int_div pcm_length 2) (channels c)"
    using assms(6,7) by (rule num_samples_trunc)
  have nz: "channels c \<noteq> 0"
    using assms(7) by auto
  have "opus_frame_encode E ctx pcm_data pcm_length output_buffer output_buffer_size w =
     Inr (r, w\<lparr>buffers := m', engine_state := e',
               call_log := call_log w @
                 [EngineEncode (encoder c) pcm_data (c_int_div (c_int_div pcm_length 2) (channels c))
                    output_buffer output_buffer_size]\<rparr>)"
    using encode_valid [OF assms(1-5) nz, of E pcm_length output_buffer_size r m' e'] assms(8)
    by (simp add: n)
  moreover have "sint (c_int_div (c_int_div pcm_length 2) (channels c)) =
      sint pcm_length div 2 div sint (channels c)"
    using sint_num_samples [OF assms(6,7)] by (simp add: n)
  ultimately show ?thesis by simp
qed

text \<open>
  The theorem at a canonical 20 ms mono frame at 48 kHz: 1920 bytes are 960 samples.
\<close>

theorem encode_forwards_sample_count_witness:
  "opus_frame_encode demo_engine 16 32 1920 48 4000 demo_world =
     Inr (1, demo_world\<lparr>buffers := (buffers demo_world)(48 := buffers demo_world 32),
                        engine_state := 1,
                        call_log := call_log demo_world @ [EngineEncode 4096 32 960 48 4000]\<rparr>)"
  using encode_forwards_sample_count [of 16 demo_world demo_ctx 32 48 1920 demo_engine 4000
          1 "(buffers demo_world)(48 := buffers demo_world 32)" 1]
  by (simp add: demo_world_simps demo_ctx_simps demo_engine_simps c_int_div_examples NULL_def
        word_sless_alt word_sle_eq)

text \<open>
  C1 as stated fails on a negative length: with \<open>pcm_length = -5\<close> and one channel the
  engine receives 2147483645 samples, while \<open>-5 / 2 / 1\<close> is -2.
\<close>

theorem encode_negative_length_counterexample:
  "opus_frame_encode demo_engine 16 32 (- 5) 48 4000 demo_world =
     Inr (1, demo_world\<lparr>buffers := (buffers demo_world)(48 := buffers demo_world 32),
                        engine_state := 1,
                        call_log := call_log demo_world @ [EngineEncode 4096 32 2147483645 48 4000]\<rparr>)
   \<and> c_int_div (c_int_div (- 5) 2) (channels demo_ctx) = - 2
   \<and> (2147483645 :: c_int) \<noteq> - 2"
  by (simp add: opus_frame_encode_def demo_world_simps demo_ctx_simps demo_engine_simps
        num_samples_examples c_int_div_examples NULL_def word_sless_alt)

text \<open>
  C2. When the handle is null, or the handle's encoder field is null, or the PCM pointer
  or the output pointer is null, \<open>opus_frame_encode\<close> returns -1 and the world is the
  one it was called in: no byte of any buffer is written and no outside call is made.
\<close>

theorem encode_rejects_null:
  assumes "ctx = NULL \<or>
     (ctx_heap w ctx = Some c \<and> (encoder c = NULL \<or> pcm_data = NULL \<or> output_buffer = NULL))"
  shows "opus_frame_encode E ctx pcm_data pcm_length output_buffer output_buffer_size w = Inr (- 1, w)"
  using assms by (auto simp: opus_frame_encode_def)

theorem encode_rejects_null_witness:
  "opus_frame_encode demo_engine 16 32 1920 NULL 4000 demo_world = Inr (- 1, demo_world)"
  using encode_rejects_null [of 16 demo_world demo_ctx 32 NULL demo_engine 1920 4000]
  by (simp add: demo_world_simps)

text \<open>
  C10, as amended. Past the null checks (and with a non-zero channel count) every
  \<open>pcm_length\<close> and every \<open>output_buffer_size\<close> reaches the engine, and the result is the
  engine's. The count forwarded is the unsigned 32-bit quotient
  \<open>(pcm_length mod 2^32) / 2 / (channels mod 2^32)\<close>, which is never negative; for a
  non-negative length and a positive channel count it is the truncated quotient
  \<open>pcm_length / (2 * channels)\<close>, which may be zero and leaves between 0 and
  \<open>2 * channels - 1\<close> trailing bytes out.
\<close>

theorem encode_length_unvalidated:
  assumes "ctx \<noteq> NULL" "ctx_heap w ctx = Some c" "encoder c \<noteq> NULL"
    and "pcm_data \<noteq> NULL" "output_buffer \<noteq> NULL" "channels c \<noteq> 0"
    and "opus_encode E (encoder c) pcm_data (num_samples pcm_length (channels c))
           output_buffer output_buffer_size (buffers w, engine_state w) = (r, m', e')"
  shows "opus_frame_encode E ctx pcm_data pcm_length output_buffer output_buffer_size w =
     Inr (r, w\<lparr>buffers := m', engine_state := e',
               call_log := call_log w @
                 [EngineEncode (encoder c) pcm_data (num_samples pcm_length (channels c))
                    output_buffer output_buffer_size]\<rparr>)
     \<and> uint (num_samples pcm_length (channels c)) = uint pcm_length div 2 div uint (channels c)
     \<and> 0 \<le>s num_samples pcm_length (channels c)
     \<and> (0 \<le>s pcm_length \<and> 0 <s channels c \<longrightarrow>
          sint (num_samples pcm_length (channels c)) = sint pcm_length div (2 * sint (channels c)) \<and>
          0 \<le> sint pcm_length - sint (num_samples pcm_length (channels c)) * (2 * sint (channels c)) \<and>
          sint pcm_length - sint (num_samples pcm_length (channels c)) * (2 * sint (channels c))
            \<le> 2 * sint (channels c) - 1)"
  using encode_valid [OF assms] num_samples_uint [of pcm_length "channels c"]
    num_samples_nonneg [of pcm_length "channels c"]
    num_samples_discards [of pcm_length "channels c"]
  by blast

text \<open>
  The theorem at a three-byte buffer and a zero output capacity: one sample is
  forwarded, one byte is left out, and the -1 returned is the engine's.
\<close>

theorem encode_length_unvalidated_witness:
  "opus_frame_encode demo_engine 16 32 3 48 0 demo_world =
     Inr (- 1, demo_world\<lparr>buffers := buffers demo_world, engine_state := 1,
                          call_log := call_log demo_world @ [EngineEncode 4096 32 1 48 0]\<rparr>)
   \<and> sint (3 :: c_int) - sint (num_samples 3 1) * (2 * sint (1 :: c_int)) \<le> 2 * sint (1 :: c_int) - 1"
proof -
  have n: "num_samples 3 1 = 1"
    by (simp add: num_samples_def int_to_size_t_def size_t_to_int_def sizeof_opus_int16_def)
  show ?thesis
    using encode_length_unvalidated [of 16 demo_world demo_ctx 32 48 demo_engine 3 0
            "- 1" "buffers demo_world" 1]
    by (simp add: demo_world_simps demo_ctx_simps demo_engine_simps n NULL_def
          word_sless_alt word_sle_eq)
qed

text \<open>
  C10 as stated fails on a negative length: with \<open>pcm_length = -4\<close> and one channel the
  truncated quotient is -2, and the engine receives 2147483646, which is not negative.
\<close>

theorem encode_negative_count_counterexample:
  "opus_frame_encode demo_engine 16 32 (- 4) 48 4000 demo_world =
     Inr (1, demo_world\<lparr>buffers := (buffers demo_world)(48 := buffers demo_world 32),
                        engine_state := 1,
                        call_log := call_log demo_world @ [EngineEncode 4096 32 2147483646 48 4000]\<rparr>)
   \<and> c_int_div (c_int_div (- 4) 2) (channels demo_ctx) = - 2
   \<and> \<not> (2147483646 :: c_int) <s 0"
  by (simp add: opus_frame_encode_def demo_world_simps demo_ctx_simps demo_engine_simps
        num_samples_examples c_int_div_examples NULL_def word_sless_alt)

subsection \<open>Construction and the frame size\<close>

text \<open>
  C3, as amended. For a sample rate among 8000, 12000, 16000, 24000, 48000 and one or
  two channels, when \<open>malloc\<close> returns a block and the engine accepts the
  configuration, \<open>opus_frame_encoder_create\<close> returns that block as the handle and
  \<open>opus_frame_encoder_get_frame_size\<close> on it returns \<open>sample_rate / 50\<close>. In any world
  the accessor returns 0 on the null handle and the cached field on a live one; it takes
  no engine and returns no world, so it cannot call the one or change the other.
\<close>

theorem create_then_get_frame_size:
  assumes "rate \<in> {8000, 12000, 16000, 24000, 48000}" "nch \<in> {1, 2}"
    and "ctx \<noteq> NULL"
    and "opus_encoder_create E rate nch application (engine_state w) = ((enc, OPUS_OK E), e')"
    and "enc \<noteq> NULL"
    and "opus_frame_encoder_create E ctx uninit rate nch application w = (h, w')"
  shows "h = ctx \<and> h \<noteq> NULL
     \<and> opus_frame_encoder_get_frame_size h w' = Inr (c_int_div rate 50)
     \<and> sint (c_int_div rate 50) = sint rate div 50
     \<and> opus_frame_encoder_get_frame_size NULL v = Inr 0
     \<and> (q \<noteq> NULL \<and> ctx_heap v q = Some c \<longrightarrow>
          opus_frame_encoder_get_frame_size q v = Inr (frame_size c))"
  using assms(3,5,6) sint_frame_size_rates [OF assms(1)]
  by (auto simp: create_cases [OF assms(4)] opus_frame_encoder_get_frame_size_def)

theorem create_then_get_frame_size_witness:
  "opus_frame_encoder_create demo_engine 16 demo_uninit 48000 1 2049 empty_world = (16, demo_world)
   \<and> opus_frame_encoder_get_frame_size 16 demo_world = Inr 960
   \<and> opus_frame_encoder_get_frame_size NULL demo_world = Inr 0"
  using create_then_get_frame_size [of 48000 1 16 demo_engine 2049 empty_world 4096 1
          demo_uninit 16 demo_world demo_world 16 demo_ctx]
  by (simp add: demo_world_created demo_engine_simps demo_world_simps demo_ctx_simps
        empty_world_simps NULL_def c_int_div_examples)

text \<open>
  C3 as stated fails when \<open>malloc\<close> returns \<open>NULL\<close>: the engine would accept 48000 Hz
  mono, and \<open>opus_frame_encoder_create\<close> returns \<open>NULL\<close> at line 19 without asking it.
\<close>

theorem create_malloc_failure_counterexample:
  "(48000 :: c_int) \<in> {8000, 12000, 16000, 24000, 48000} \<and> (1 :: c_int) \<in> {1, 2}
   \<and> opus_encoder_create demo_engine 48000 1 2049 (engine_state empty_world)
       = ((4096, OPUS_OK demo_engine), 1)
   \<and> opus_frame_encoder_create demo_engine NULL demo_uninit 48000 1 2049 empty_world
       = (NULL, empty_world\<lparr>call_log := [Malloc NULL]\<rparr>)"
  by (simp add: opus_frame_encoder_create_def demo_engine_simps empty_world_def)

text \<open>
  C4. \<open>opus_frame_encoder_create\<close> fails atomically. When \<open>malloc\<close> returns \<open>NULL\<close> the
  result is \<open>NULL\<close> and the world is unchanged but for the logged \<open>malloc\<close> attempt: the
  engine is not called. When the engine's constructor reports a status other than
  \<open>OPUS_OK\<close> or returns no encoder, the block is freed and the result is \<open>NULL\<close>: the
  outside calls are \<open>malloc\<close>, the constructor and \<open>free\<close> of that block, in this order.
  Whenever the result is \<open>NULL\<close> the context heap is the one before the call.
  (\<open>malloc\<close> returns \<open>NULL\<close> or a block that was not live.)
\<close>

theorem create_fails_atomically:
  assumes "opus_frame_encoder_create E ctx uninit rate nch application w = (h, w')"
    and "opus_encoder_create E rate nch application (engine_state w) = ((enc, err), e')"
    and "ctx = NULL \<or> ctx_heap w ctx = None"
  shows "(ctx = NULL \<longrightarrow> h = NULL \<and> w' = w\<lparr>call_log := call_log w @ [Malloc NULL]\<rparr>)
     \<and> (ctx \<noteq> NULL \<and> (err \<noteq> OPUS_OK E \<or> enc = NULL) \<longrightarrow>
          h = NULL \<and> ctx_heap w' = ctx_heap w \<and> buffers w' = buffers w \<and> engine_state w' = e'
          \<and> call_log w' = call_log w @ [Malloc ctx, EngineCreate rate nch application, Free ctx])
     \<and> (h = NULL \<longrightarrow> ctx_heap w' = ctx_heap w)"
  using assms(1,3) unfolding create_cases [OF assms(2)]
  by (auto split: if_splits)

text \<open>
  The theorem on both failure paths: 44100 Hz, which the engine rejects, with \<open>malloc\<close>
  returning block 16, and \<open>malloc\<close> returning \<open>NULL\<close>.
\<close>

theorem create_fails_atomically_witness:
  "fst (opus_frame_encoder_create demo_engine 16 demo_uninit 44100 1 2049 empty_world) = NULL
   \<and> ctx_heap (snd (opus_frame_encoder_create demo_engine 16 demo_uninit 44100 1 2049 empty_world))
       = ctx_heap empty_world
   \<and> call_log (snd (opus_frame_encoder_create demo_engine 16 demo_uninit 44100 1 2049 empty_world))
       = [Malloc 16, EngineCreate 44100 1 2049, Free 16]
   \<and> opus_frame_encoder_create demo_engine NULL demo_uninit 44100 1 2049 empty_world
       = (NULL, empty_world\<lparr>call_log := call_log empty_world @ [Malloc NULL]\<rparr>)"
proof -
  have e: "opus_encoder_create demo_engine 44100 1 2049 (engine_state empty_world) = ((NULL, - 1), 0)"
    by (simp add: demo_engine_simps empty_world_simps)
  have f: "16 = NULL \<or> ctx_heap empty_world 16 = None"
    by (simp add: empty_world_simps)
  have n: "(16 :: addr) \<noteq> NULL"
    by (simp add: NULL_def)
  show ?thesis
    using create_fails_atomically [OF prod.collapse [symmetric] e f]
      create_fails_atomically [OF prod.collapse [symmetric] e, of NULL demo_uninit] n
    by (simp add: empty_world_simps prod_eq_iff)
qed

subsection \<open>The invariant of held handles\<close>

text \<open>
  C5. In every state a caller can reach through the interface, each handle that a
  successful create returned and no destroy has taken is non-null and names a live
  context whose encoder pointer is non-null, whose \<open>sample_rate\<close> and \<open>channels\<close> are the
  construction arguments and whose \<open>frame_size\<close> is \<open>sample_rate / 50\<close>; no field keeps
  the indeterminate content of the fresh block.
\<close>

theorem reachable_handles_valid:
  assumes "reachable E hs w" "(h, rate, nch) \<in> set hs"
  shows "h \<noteq> NULL \<and>
     (\<exists>c. ctx_heap w h = Some c \<and> encoder c \<noteq> NULL \<and> sample_rate c = rate \<and>
          channels c = nch \<and> frame_size c = c_int_div rate 50) \<and>
     opus_frame_encoder_get_frame_size h w = Inr (c_int_div rate 50)"
proof -
  from assms(1) have "handles_valid hs w"
  proof (induction rule: reachable.induct)
    case (start w)
    show ?case by (simp add: handles_valid_def)
  next
    case (call hs w c r w')
    then show ?case by (simp add: step_preserves_valid)
  qed
  from handles_validD [OF this assms(2)] show ?thesis
    by (auto simp: ctx_valid_def opus_frame_encoder_get_frame_size_def)
qed

text \<open>The theorem at the state after one successful create.\<close>

theorem reachable_handles_valid_witness:
  "reachable demo_engine [(16, 48000, 1)] demo_world
   \<and> opus_frame_encoder_get_frame_size 16 demo_world = Inr 960"
proof -
  have "reachable demo_engine
          (track (Create 16 demo_uninit 48000 1 2049) (Handle 16) []) demo_world"
    by (rule reachable.call [OF reachable.start, of _ empty_world])
      (simp_all add: demo_world_created empty_world_simps)
  then have r: "reachable demo_engine [(16, 48000, 1)] demo_world"
    by (simp add: NULL_def)
  from reachable_handles_valid [OF r, of 16 48000 1] r show ?thesis
    by (simp add: c_int_div_examples)
qed

subsection \<open>Destruction\<close>

text \<open>
  C6. \<open>opus_frame_encoder_destroy\<close> on the null handle returns with the world unchanged.
  On a live handle it calls the engine's \<open>opus_encoder_destroy\<close> on the encoder (when the
  encoder field is non-null) and then frees the context block, in this order. After a
  successful create and one destroy of its handle the context heap is the one before the
  create, and the outside calls made are \<open>malloc\<close>, the engine's constructor, the engine's
  destructor on the instance the constructor returned, and \<open>free\<close> of the block.
\<close>

theorem destroy_releases:
  "opus_frame_encoder_destroy E NULL w = Inr w
   \<and> (ctx \<noteq> NULL \<and> ctx_heap w ctx = Some c \<longrightarrow>
        opus_frame_encoder_destroy E ctx w =
          Inr (w\<lparr>ctx_heap := (ctx_heap w)(ctx := None),
                 engine_state := (if encoder c \<noteq> NULL
                                  then opus_encoder_destroy E (encoder c) (engine_state w)
                                  else engine_state w),
                 call_log := call_log w @
                   (if encoder c \<noteq> NULL then [EngineDestroy (encoder c)] else []) @ [Free ctx]\<rparr>))
   \<and> (opus_frame_encoder_create E p uninit rate nch application w0 = (h, w1) \<and> h \<noteq> NULL \<and>
      ctx_heap w0 p = None \<and>
      opus_encoder_create E rate nch application (engine_state w0) = ((enc, err), e') \<longrightarrow>
        (\<exists>w2. opus_frame_encoder_destroy E h w1 = Inr w2 \<and> ctx_heap w2 = ctx_heap w0 \<and>
              engine_state w2 = opus_encoder_destroy E enc e' \<and>
              call_log w2 = call_log w0 @
                [Malloc h, EngineCreate rate nch application, EngineDestroy enc, Free h]))"
proof (intro conjI impI)
  show "opus_frame_encoder_destroy E NULL w = Inr w"
    by (simp add: destroy_cases)
next
  assume "ctx \<noteq> NULL \<and> ctx_heap w ctx = Some c"
  then show "opus_frame_encoder_destroy E ctx w =
          Inr (w\<lparr>ctx_heap := (ctx_heap w)(ctx := None),
                 engine_state := (if encoder c \<noteq> NULL
                                  then opus_encoder_destroy E (encoder c) (engine_state w)
                                  else engine_state w),
                 call_log := call_log w @
                   (if encoder c \<noteq> NULL then [EngineDestroy (encoder c)] else []) @ [Free ctx]\<rparr>)"
    by (simp add: destroy_cases)
next
  assume a: "opus_frame_encoder_create E p uninit rate nch application w0 = (h, w1) \<and> h \<noteq> NULL \<and>
      ctx_heap w0 p = None \<and>
      opus_encoder_create E rate nch application (engine_state w0) = ((enc, err), e')"
  then have eng: "opus_encoder_create E rate nch application (engine_state w0) = ((enc, err), e')"
    by simp
  from a have ok: "p \<noteq> NULL" "\<not> (err \<noteq> OPUS_OK E \<or> enc = NULL)"
    unfolding create_cases [OF eng] by (auto split: if_splits)
  from a ok have h: "h = p"
    and w1: "w1 = w0\<lparr>ctx_heap := (ctx_heap w0)(p \<mapsto>
                      \<lparr>encoder = enc, sample_rate = rate, channels = nch,
                       frame_size = c_int_div rate 50\<rparr>),
                  engine_state := e',
                  call_log := call_log w0 @ [Malloc p, EngineCreate rate nch application]\<rparr>"
    unfolding create_cases [OF eng] by (auto split: if_splits)
  from a have fresh: "ctx_heap w0 p = None" by simp
  show "\<exists>w2. opus_frame_encoder_destroy E h w1 = Inr w2 \<and> ctx_heap w2 = ctx_heap w0 \<and>
              engine_state w2 = opus_encoder_destroy E enc e' \<and>
              call_log w2 = call_log w0 @
                [Malloc h, EngineCreate rate nch application, EngineDestroy enc, Free h]"
    using ok fresh by (simp add: h w1 destroy_cases fun_upd_idem)
qed

theorem destroy_releases_witness:
  "opus_frame_encoder_destroy demo_engine NULL demo_world = Inr demo_world
   \<and> opus_frame_encoder_destroy demo_engine 16 demo_world =
     Inr (demo_world\<lparr>ctx_heap := (ctx_heap demo_world)(16 := None), engine_state := 0,
                     call_log := [Malloc 16, EngineCreate 48000 1 2049, EngineDestroy 4096, Free 16]\<rparr>)
   \<and> ctx_heap (demo_world\<lparr>ctx_heap := (ctx_heap demo_world)(16 := None), engine_state := 0,
                     call_log := [Malloc 16, EngineCreate 48000 1 2049, EngineDestroy 4096, Free 16]\<rparr>)
       = ctx_heap empty_world"
  using destroy_releases [of demo_engine demo_world 16 demo_ctx 16 demo_uninit 48000 1 2049
          empty_world 16 demo_world 4096 0 1]
  by (simp add: demo_world_created demo_world_simps demo_ctx_simps demo_engine_simps
        empty_world_simps NULL_def)

subsection \<open>Tuning controls\<close>

text \<open>
  C7. \<open>opus_frame_encoder_set_bitrate\<close> and \<open>opus_frame_encoder_set_complexity\<close> return -1,
  with the world unchanged, when the handle is null or its encoder field is null.
  Otherwise each makes one call of the engine's \<open>opus_encoder_ctl\<close> on the encoder, with
  \<open>OPUS_SET_BITRATE(bitrate)\<close> or \<open>OPUS_SET_COMPLEXITY(complexity)\<close>, and returns the
  engine's status as it is.
\<close>

theorem tuning_controls_forward:
  assumes "ctx = NULL \<or> ctx_heap w ctx = Some c"
  shows "opus_frame_encoder_set_bitrate E ctx bitrate w =
      (if ctx = NULL \<or> encoder c = NULL then Inr (- 1, w)
       else Inr (fst (opus_encoder_ctl E (encoder c) (OPUS_SET_BITRATE bitrate) (engine_state w)),
                 w\<lparr>engine_state :=
                     snd (opus_encoder_ctl E (encoder c) (OPUS_SET_BITRATE bitrate) (engine_state w)),
                   call_log := call_log w @ [EngineCtl (encoder c) (OPUS_SET_BITRATE bitrate)]\<rparr>))
    \<and> opus_frame_encoder_set_complexity E ctx complexity w =
      (if ctx = NULL \<or> encoder c = NULL then Inr (- 1, w)
       else Inr (fst (opus_encoder_ctl E (encoder c) (OPUS_SET_COMPLEXITY complexity) (engine_state w)),
                 w\<lparr>engine_state :=
                     snd (opus_encoder_ctl E (encoder c) (OPUS_SET_COMPLEXITY complexity) (engine_state w)),
                   call_log := call_log w @ [EngineCtl (encoder c) (OPUS_SET_COMPLEXITY complexity)]\<rparr>))"
  using assms by (auto simp: tuning_cases)

theorem tuning_controls_forward_witness:
  "opus_frame_encoder_set_bitrate demo_engine 16 64000 demo_world =
      Inr (0, demo_world\<lparr>engine_state := 1,
                         call_log := call_log demo_world @ [EngineCtl 4096 (OPUS_SET_BITRATE 64000)]\<rparr>)
   \<and> opus_frame_encoder_set_complexity demo_engine 16 11 demo_world =
      Inr (- 1, demo_world\<lparr>engine_state := 1,
                         call_log := call_log demo_world @ [EngineCtl 4096 (OPUS_SET_COMPLEXITY 11)]\<rparr>)
   \<and> opus_frame_encoder_set_bitrate demo_engine NULL 64000 demo_world = Inr (- 1, demo_world)"
  using tuning_controls_forward [of 16 demo_world demo_ctx demo_engine 64000 11]
    tuning_controls_forward [of NULL demo_world demo_ctx demo_engine 64000 11]
  by (simp add: demo_world_simps demo_ctx_simps demo_engine_simps NULL_def word_sless_alt word_sle_eq)

subsection \<open>Frame condition\<close>

text \<open>
  C8. Neither \<open>opus_frame_encode\<close> nor a tuning control changes any context: the context
  heap after the call is the one before, so \<open>sample_rate\<close>, \<open>channels\<close> and \<open>frame_size\<close>
  of every handle are unchanged and \<open>opus_frame_encoder_get_frame_size\<close> answers as before.
  An encode either returns -1 in an unchanged world or makes one call of the engine's
  \<open>opus_encode\<close>, with the caller's output pointer and capacity, and takes the buffers
  and the engine state from it. A tuning control leaves the buffers unchanged.
\<close>

theorem cached_fields_unchanged:
  "(opus_frame_encode E ctx pcm_data pcm_length output_buffer output_buffer_size w = Inr (r1, w1) \<longrightarrow>
      ctx_heap w1 = ctx_heap w \<and>
      opus_frame_encoder_get_frame_size p w1 = opus_frame_encoder_get_frame_size p w \<and>
      ((r1 = - 1 \<and> w1 = w) \<or>
       (\<exists>c. ctx_heap w ctx = Some c \<and>
          (r1, buffers w1, engine_state w1) =
            opus_encode E (encoder c) pcm_data (num_samples pcm_length (channels c))
              output_buffer output_buffer_size (buffers w, engine_state w) \<and>
          call_log w1 = call_log w @
            [EngineEncode (encoder c) pcm_data (num_samples pcm_length (channels c))
               output_buffer output_buffer_size])))
   \<and> (opus_frame_encoder_set_bitrate E ctx bitrate w = Inr (r2, w2) \<longrightarrow>
      ctx_heap w2 = ctx_heap w \<and> buffers w2 = buffers w \<and>
      opus_frame_encoder_get_frame_size p w2 = opus_frame_encoder_get_frame_size p w)
   \<and> (opus_frame_encoder_set_complexity E ctx complexity w = Inr (r3, w3) \<longrightarrow>
      ctx_heap w3 = ctx_heap w \<and> buffers w3 = buffers w \<and>
      opus_frame_encoder_get_frame_size p w3 = opus_frame_encoder_get_frame_size p w)"
proof (intro conjI impI)
  assume a: "opus_frame_encode E ctx pcm_data pcm_length output_buffer output_buffer_size w = Inr (r1, w1)"
  from encode_keeps_heap [OF a] show "ctx_heap w1 = ctx_heap w" .
  then show "opus_frame_encoder_get_frame_size p w1 = opus_frame_encoder_get_frame_size p w"
    by (rule get_frame_size_same_heap)
  from encode_effects [OF a]
  show "(r1 = - 1 \<and> w1 = w) \<or>
       (\<exists>c. ctx_heap w ctx = Some c \<and>
          (r1, buffers w1, engine_state w1) =
            opus_encode E (encoder c) pcm_data (num_samples pcm_length (channels c))
              output_buffer output_buffer_size (buffers w, engine_state w) \<and>
          call_log w1 = call_log w @
            [EngineEncode (encoder c) pcm_data (num_samples pcm_length (channels c))
               output_buffer output_buffer_size])" .
next
  assume a: "opus_frame_encoder_set_bitrate E ctx bitrate w = Inr (r2, w2)"
  from set_bitrate_keeps_heap [OF a] have h: "ctx_heap w2 = ctx_heap w" and b: "buffers w2 = buffers w"
    by simp_all
  show "ctx_heap w2 = ctx_heap w" by (fact h)
  show "buffers w2 = buffers w" by (fact b)
  show "opus_frame_encoder_get_frame_size p w2 = opus_frame_encoder_get_frame_size p w"
    using h by (rule get_frame_size_same_heap)
next
  assume a: "opus_frame_encoder_set_complexity E ctx complexity w = Inr (r3, w3)"
  from set_complexity_keeps_heap [OF a] have h: "ctx_heap w3 = ctx_heap w" and b: "buffers w3 = buffers w"
    by simp_all
  show "ctx_heap w3 = ctx_heap w" by (fact h)
  show "buffers w3 = buffers w" by (fact b)
  show "opus_frame_encoder_get_frame_size p w3 = opus_frame_encoder_get_frame_size p w"
    using h by (rule get_frame_size_same_heap)
qed

theorem cached_fields_unchanged_witness:
  "opus_frame_encoder_get_frame_size 16
      (demo_world\<lparr>buffers := (buffers demo_world)(48 := buffers demo_world 32),
                  engine_state := 1,
                  call_log := call_log demo_world @ [EngineEncode 4096 32 960 48 4000]\<rparr>)
     = opus_frame_encoder_get_frame_size 16 demo_world
   \<and> opus_frame_encoder_get_frame_size 16
      (demo_world\<lparr>engine_state := 1,
                  call_log := call_log demo_world @ [EngineCtl 4096 (OPUS_SET_BITRATE 64000)]\<rparr>)
     = opus_frame_encoder_get_frame_size 16 demo_world
   \<and> opus_frame_encoder_get_frame_size 16
      (demo_world\<lparr>engine_state := 1,
                  call_log := call_log demo_world @ [EngineCtl 4096 (OPUS_SET_COMPLEXITY 5)]\<rparr>)
     = opus_frame_encoder_get_frame_size 16 demo_world"
  using cached_fields_unchanged [of demo_engine 16 32 1920 48 4000 demo_world 1
      "demo_world\<lparr>buffers := (buffers demo_world)(48 := buffers demo_world 32),
                  engine_state := 1,
                  call_log := call_log demo_world @ [EngineEncode 4096 32 960 48 4000]\<rparr>"
      16 64000 0
      "demo_world\<lparr>engine_state := 1,
                  call_log := call_log demo_world @ [EngineCtl 4096 (OPUS_SET_BITRATE 64000)]\<rparr>"
      5 0
      "demo_world\<lparr>engine_state := 1,
                  call_log := call_log demo_world @ [EngineCtl 4096 (OPUS_SET_COMPLEXITY 5)]\<rparr>"]
    demo_calls
  by simp

subsection \<open>Determinism\<close>

text \<open>
  C9. Two handles freshly constructed with the same sample rate, channel count and
  application profile, and then given the same tuning calls and the same PCM frames in the
  same order, return the same status and the same compressed bytes at every call. The two
  constructions may happen in any two worlds, of one process or of two: nothing is
  assumed of the engine's state, of the buffers' contents, of the blocks \<open>malloc\<close>
  returns, of what those blocks held or of the handles already in use. The engine is any
  engine that keeps the library's contract on encoder instances.
\<close>

theorem two_run_determinism:
  assumes iso: "engine_isolated E inst chans"
    and cr1: "opus_frame_encoder_create E ctx1 uninit1 rate nch application w1 = (h1, v1)"
    and h1: "h1 \<noteq> NULL"
    and cr2: "opus_frame_encoder_create E ctx2 uninit2 rate nch application w2 = (h2, v2)"
    and h2: "h2 \<noteq> NULL"
  shows "run_calls E h1 cs v1 = run_calls E h2 cs v2"
proof -
  obtain enc1 err1 e1' where
    g1: "opus_encoder_create E rate nch application (engine_state w1) = ((enc1, err1), e1')"
    by (metis surj_pair)
  obtain enc2 err2 e2' where
    g2: "opus_encoder_create E rate nch application (engine_state w2) = ((enc2, err2), e2')"
    by (metis surj_pair)
  let ?c1 = "\<lparr>encoder = enc1, sample_rate = rate, channels = nch, frame_size = c_int_div rate 50\<rparr>"
  let ?c2 = "\<lparr>encoder = enc2, sample_rate = rate, channels = nch, frame_size = c_int_div rate 50\<rparr>"
  from cr1 h1 have ok1: "ctx1 \<noteq> NULL" "err1 = OPUS_OK E" "enc1 \<noteq> NULL" "h1 = ctx1"
    and v1: "v1 = w1\<lparr>ctx_heap := (ctx_heap w1)(ctx1 \<mapsto> ?c1), engine_state := e1',
                  call_log := call_log w1 @ [Malloc ctx1, EngineCreate rate nch application]\<rparr>"
    unfolding create_cases [OF g1] by (auto split: if_splits)
  from cr2 h2 have ok2: "ctx2 \<noteq> NULL" "err2 = OPUS_OK E" "enc2 \<noteq> NULL" "h2 = ctx2"
    and v2: "v2 = w2\<lparr>ctx_heap := (ctx_heap w2)(ctx2 \<mapsto> ?c2), engine_state := e2',
                  call_log := call_log w2 @ [Malloc ctx2, EngineCreate rate nch application]\<rparr>"
    unfolding create_cases [OF g2] by (auto split: if_splits)
  from isolated_create [OF iso g1 [unfolded ok1(2)] ok1(3) g2 [unfolded ok2(2)] ok2(3)]
  have same: "inst e1' enc1 = inst e2' enc2" "chans (inst e1' enc1) = nch"
    by auto
  have "in_step inst chans nch h1 v1 h2 v2"
    using ok1 ok2 same by (intro in_stepI [of _ _ _ ?c1 _ ?c2]) (simp_all add: v1 v2)
  with iso show ?thesis
    by (rule run_calls_in_step)
qed

text \<open>
  The theorem at a session of one tuning call and two frames: on a handle constructed
  at the start of a process it returns the bytes 12 and 15, and so it does on a second
  handle constructed later, when the first handle's instance has moved on and the buffers
  hold what earlier calls left.
\<close>

theorem two_run_determinism_witness:
  "run_calls history_engine 64
     [TuneComplexity 5, EncodeFrame 32 [7, 1, 2, 3] 48 4000, EncodeFrame 32 [9, 4] 48 4000]
     (snd (opus_frame_encoder_create history_engine 64 demo_ctx 48000 1 2049 history_later)) =
   Inr [(0, []), (1, [12]), (1, [15])]"
proof -
  have f1: "fst (opus_frame_encoder_create history_engine 16 demo_uninit 48000 1 2049 history_start)
      = 16"
    by (simp add: history_created)
  have f2: "fst (opus_frame_encoder_create history_engine 64 demo_ctx 48000 1 2049 history_later)
      = 64"
    by (simp add: history_created)
  have a: "fst (opus_frame_encoder_create history_engine 16 demo_uninit 48000 1 2049 history_start)
      \<noteq> NULL"
    by (simp add: f1 NULL_def)
  have b: "fst (opus_frame_encoder_create history_engine 64 demo_ctx 48000 1 2049 history_later)
      \<noteq> NULL"
    by (simp add: f2 NULL_def)
  note two_run_determinism [OF history_isolated prod.collapse [symmetric] a
      prod.collapse [symmetric] b,
      of "[TuneComplexity 5, EncodeFrame 32 [7, 1, 2, 3] 48 4000, EncodeFrame 32 [9, 4] 48 4000]",
      unfolded f1 f2 history_session_start]
  then show ?thesis
    by (rule sym)
qed

end
